theory Spec2Isabelle
  imports Complex_Main
begin

section \<open>Domain types (src/engine/types.ts)\<close>

text \<open>
  The engine's string-literal unions become datatypes and its interfaces become records.
  JavaScript numbers that hold counters, durations and timestamps are modelled as
  \<^typ>\<open>int\<close>; a value of type \<open>string | null\<close> is a \<^typ>\<open>string option\<close>.
\<close>

datatype Role = SUBJECT | TRAITOR

datatype Phase = LOBBY | NIGHT | DAY_DISCUSSION | TRIAL | DAY_VERDICT | GAME_OVER

datatype Winner = TRAITORS | SUBJECTS | DRAW

datatype VerdictChoice = HANG | SPARE

record Player =
  accountId :: string
  playerId :: string
  name :: string
  role :: Role
  alive :: bool
  connected :: bool
  isHost :: bool

record PlayerIdentity =
  idAccountId :: string
  idPlayerId :: string
  idName :: string
  idIsHost :: "bool option"

record Durations =
  night :: int
  dayDiscussion :: int
  trial :: int
  dayVerdict :: int

record GameOptions =
  minPlayers :: int
  durations :: Durations

text \<open>
  A \<open>Record<string, T | null>\<close> is an association list in the order in which
  \<open>Object.entries\<close> enumerates it: the insertion order, for keys that are not
  canonical array indices (the keys are player identifiers).
\<close>

type_synonym 'v Ballots = "(string \<times> 'v option) list"

record GameState =
  gameId :: string
  players :: "Player list"
  phase :: Phase
  dayNumber :: int
  nightNumber :: int
  accusedId :: "string option"
  lastKilledId :: "string option"
  phaseEndsAt :: int
  winner :: "Winner option"
  options :: GameOptions
  rolesAssigned :: bool
  nightVotes :: "string Ballots"
  dayNominations :: "string Ballots"
  verdictVotes :: "VerdictChoice Ballots"

text \<open>
  \<open>GameRuleError code message\<close> is the engine's typed rejection; \<open>PlainError message\<close>
  is a bare \<open>Error\<close>. \<open>OutsideModel\<close> marks a run that leaves the declared types (a
  random draw outside the unit interval writes \<open>undefined\<close> into a player array).
\<close>

datatype error = GameRuleError string string | PlainError string | OutsideModel string

text \<open>JavaScript truthiness of a \<open>string | null\<close> value: \<open>null\<close> and the empty string are falsy.\<close>

definition truthy :: "string option \<Rightarrow> bool" where
  "truthy v = (case v of None \<Rightarrow> False | Some s \<Rightarrow> s \<noteq> [])"

section \<open>Utilities (engine/utils.ts, second part of src/unnamed/part_000)\<close>

text \<open>
  Player identifiers are non-empty strings: the gateway issues \<open>randomUUID()\<close> values and
  the tests use names such as p1. The engine tests an identifier for absence by
  truthiness, which is the null test on this domain.

  A \<open>RandomFn\<close> is a closure; the model takes the sequence of numbers it returns on
  successive calls, a finite double being the rational it denotes. A draw that is NaN or
  infinite behaves like a negative draw in every use below (the index read is outside the
  array) and is represented by one.
\<close>

type_synonym RandomFn = "nat \<Rightarrow> rat"

text \<open>
  \<open>Math.floor(r * n)\<close> in double arithmetic, for a double \<open>r\<close> and an array length
  \<open>n\<close>. The product is rounded to the nearest double, ties to even, before the floor is
  taken. With \<open>p\<close> the exact product and \<open>m\<close> the next integer above its floor, the
  rounded product reaches \<open>m\<close> exactly when \<open>p\<close> is at least the midpoint between \<open>m\<close>
  and the double below it; that double lies \<open>2 ^ bitLength (m - 1) / 2 ^ 53\<close> below
  \<open>m\<close>, and the tie goes to \<open>m\<close>, whose significand is even. This is exact for products
  below \<open>2 ^ 52\<close>; for a larger or a negative product the code and the model both give an
  index outside any array.
\<close>

fun bitLength :: "nat \<Rightarrow> nat" where
  "bitLength n = (if n = 0 then 0 else Suc (bitLength (n div 2)))"

declare bitLength.simps [simp del]

definition floorOfProduct :: "rat \<Rightarrow> nat \<Rightarrow> int" where
  "floorOfProduct r n =
     (let p = r * of_nat n; m = \<lfloor>p\<rfloor> + 1
      in if 0 \<le> p \<and> of_int m - 2 ^ bitLength (nat m - 1) / 2 ^ 54 \<le> p then m else \<lfloor>p\<rfloor>)"

definition clonePlayers :: "Player list \<Rightarrow> Player list" where
  "clonePlayers ps = map (\<lambda>player. player) ps"

definition countAlive :: "Player list \<Rightarrow> Role option \<Rightarrow> nat" where
  "countAlive ps r = length (filter (\<lambda>p. alive p \<and> (r = None \<or> Some (role p) = r)) ps)"

definition livingPlayers :: "Player list \<Rightarrow> Player list" where
  "livingPlayers ps = filter (\<lambda>p. alive p) ps"

definition majorityThreshold :: "nat \<Rightarrow> nat" where
  "majorityThreshold aliveCount = aliveCount div 2 + 1"

definition getPlayer :: "Player list \<Rightarrow> string \<Rightarrow> Player option" where
  "getPlayer ps pid = find (\<lambda>p. playerId p = pid) ps"

text \<open>
  \<open>randomItem\<close> throws on an empty list; otherwise it reads index
  \<open>Math.floor(random() * items.length)\<close>, and a read outside the array gives
  \<open>undefined\<close> (\<open>None\<close>).
\<close>

definition randomItem :: "'a list \<Rightarrow> RandomFn \<Rightarrow> error + 'a option" where
  "randomItem items random =
     (if length items = 0 then Inl (GameRuleError ''EMPTY_SELECTION'' ''Cannot select from empty list'')
      else let idx = floorOfProduct (random 0) (length items)
           in if 0 \<le> idx \<and> idx < int (length items) then Inr (Some (items ! nat idx))
              else Inr None)"

section \<open>Win evaluation (engine/win.ts)\<close>

definition checkWin :: "GameState \<Rightarrow> Winner option" where
  "checkWin state =
     (case winner state of Some w \<Rightarrow> Some w
      | None \<Rightarrow>
          let subjectsAlive = countAlive (players state) (Some SUBJECT);
              traitorsAlive = countAlive (players state) (Some TRAITOR);
              totalAlive = subjectsAlive + traitorsAlive
          in if totalAlive = 0 then Some DRAW
             else if traitorsAlive = 0 then Some SUBJECTS
             else if traitorsAlive \<ge> subjectsAlive then Some TRAITORS
             else None)"

section \<open>Chat routing (server/chat.ts)\<close>

text \<open>
  Modelled from the spec: the declaration of \<open>ChatChannel\<close> in shared/messages.ts is not
  part of the sources at hand; the chat protocol notes list its members as
  \<open>LOBBY | DAY | NIGHT_TRAITORS | TRIAL | GAME_OVER\<close>.
\<close>

datatype ChatChannel = ChLOBBY | ChDAY | ChNIGHT_TRAITORS | ChTRIAL | ChGAME_OVER

datatype ChatAudience = ROOM | TRAITORS_ONLY

record ChatRoute =
  channel :: ChatChannel
  audience :: ChatAudience

definition resolveChatRoute :: "GameState \<Rightarrow> Player \<Rightarrow> error + ChatRoute" where
  "resolveChatRoute game sender =
     (case phase game of
        LOBBY \<Rightarrow> Inr \<lparr>channel = ChLOBBY, audience = ROOM\<rparr>
      | DAY_DISCUSSION \<Rightarrow>
          if \<not> alive sender
          then Inl (GameRuleError ''INVALID_CHAT'' ''Dead players cannot chat during day'')
          else Inr \<lparr>channel = ChDAY, audience = ROOM\<rparr>
      | DAY_VERDICT \<Rightarrow>
          if \<not> alive sender
          then Inl (GameRuleError ''INVALID_CHAT'' ''Dead players cannot chat during day'')
          else Inr \<lparr>channel = ChDAY, audience = ROOM\<rparr>
      | TRIAL \<Rightarrow> Inl (GameRuleError ''INVALID_CHAT'' ''Use TRIAL_CHAT during trial'')
      | NIGHT \<Rightarrow>
          if \<not> alive sender \<or> role sender \<noteq> TRAITOR
          then Inl (GameRuleError ''INVALID_CHAT'' ''Only living traitors may chat at night'')
          else Inr \<lparr>channel = ChNIGHT_TRAITORS, audience = TRAITORS_ONLY\<rparr>
      | GAME_OVER \<Rightarrow> Inr \<lparr>channel = ChGAME_OVER, audience = ROOM\<rparr>)"

section \<open>View redaction (shared/messages.ts)\<close>

text \<open>
  The view interfaces repeat field names of \<open>Player\<close> and \<open>GameState\<close>; the view
  records carry a prefix to keep the two apart.
\<close>

record PublicPlayerView =
  pvPlayerId :: string
  pvName :: string
  pvAlive :: bool
  pvConnected :: bool
  pvIsHost :: bool

record SelfPlayerView = PublicPlayerView +
  svRole :: Role

record GameView =
  gvGameId :: string
  gvPhase :: Phase
  gvDayNumber :: int
  gvNightNumber :: int
  gvAccusedId :: "string option"
  gvLastKilledId :: "string option"
  gvPhaseEndsAt :: int
  gvWinner :: "Winner option"
  gvPlayers :: "PublicPlayerView list"
  gvYou :: SelfPlayerView

definition publicView :: "Player \<Rightarrow> PublicPlayerView" where
  "publicView p =
     \<lparr>pvPlayerId = playerId p, pvName = name p, pvAlive = alive p,
      pvConnected = connected p, pvIsHost = isHost p\<rparr>"

definition buildGameView :: "GameState \<Rightarrow> string \<Rightarrow> error + GameView" where
  "buildGameView game viewerId =
     (case find (\<lambda>p. playerId p = viewerId) (players game) of
        None \<Rightarrow> Inl (PlainError ''Viewer is not part of the game'')
      | Some viewer \<Rightarrow>
          let publicPlayers = map publicView (players game);
              you = \<lparr>pvPlayerId = playerId viewer, pvName = name viewer, pvAlive = alive viewer,
                     pvConnected = connected viewer, pvIsHost = isHost viewer,
                     svRole = role viewer\<rparr>
          in Inr \<lparr>gvGameId = gameId game, gvPhase = phase game, gvDayNumber = dayNumber game,
                  gvNightNumber = nightNumber game, gvAccusedId = accusedId game,
                  gvLastKilledId = lastKilledId game, gvPhaseEndsAt = phaseEndsAt game,
                  gvWinner = winner game, gvPlayers = publicPlayers, gvYou = you\<rparr>)"

section \<open>Transitions (src/engine/transitions.ts)\<close>

subsection \<open>Ballot records\<close>

text \<open>
  \<open>{ ...m, [k]: v }\<close> keeps the position of a key that is already present and appends
  a new key; \<open>Object.fromEntries\<close> performs these writes in order.
\<close>

fun recordSet :: "'v Ballots \<Rightarrow> string \<Rightarrow> 'v option \<Rightarrow> 'v Ballots" where
  "recordSet [] k v = [(k, v)]"
| "recordSet ((k', v') # m) k v = (if k' = k then (k', v) # m else (k', v') # recordSet m k v)"

definition fromEntries :: "(string \<times> 'v option) list \<Rightarrow> 'v Ballots" where
  "fromEntries es = foldl (\<lambda>m (k, v). recordSet m k v) [] es"

definition hasOwnProperty :: "'v Ballots \<Rightarrow> string \<Rightarrow> bool" where
  "hasOwnProperty m k = (k \<in> set (map fst m))"

subsection \<open>Options\<close>

record DurationsOverrides =
  ovNight :: "int option"
  ovDayDiscussion :: "int option"
  ovTrial :: "int option"
  ovDayVerdict :: "int option"

record GameOptionsOverrides =
  ovMinPlayers :: "int option"
  ovDurations :: "DurationsOverrides option"

definition DEFAULT_GAME_OPTIONS :: GameOptions where
  "DEFAULT_GAME_OPTIONS =
     \<lparr>minPlayers = 6,
      durations = \<lparr>night = 90000, dayDiscussion = 90000, trial = 30000, dayVerdict = 15000\<rparr>\<rparr>"

definition orElse :: "'a option \<Rightarrow> 'a \<Rightarrow> 'a" where
  "orElse v d = (case v of None \<Rightarrow> d | Some x \<Rightarrow> x)"

definition mergeOptions :: "GameOptionsOverrides option \<Rightarrow> GameOptions" where
  "mergeOptions overrides =
     (let d = durations DEFAULT_GAME_OPTIONS;
          od = (case overrides of None \<Rightarrow> None | Some ov \<Rightarrow> ovDurations ov);
          ds = (case od of None \<Rightarrow> d
                | Some o' \<Rightarrow> \<lparr>night = orElse (ovNight o') (night d),
                              dayDiscussion = orElse (ovDayDiscussion o') (dayDiscussion d),
                              trial = orElse (ovTrial o') (trial d),
                              dayVerdict = orElse (ovDayVerdict o') (dayVerdict d)\<rparr>);
          mp = (case overrides of None \<Rightarrow> minPlayers DEFAULT_GAME_OPTIONS
                | Some ov \<Rightarrow> orElse (ovMinPlayers ov) (minPlayers DEFAULT_GAME_OPTIONS))
      in \<lparr>minPlayers = mp, durations = ds\<rparr>)"

subsection \<open>Guards\<close>

definition ensurePhase :: "GameState \<Rightarrow> Phase list \<Rightarrow> string \<Rightarrow> error option" where
  "ensurePhase game allowed message =
     (if phase game \<notin> set allowed then Some (GameRuleError ''INVALID_PHASE'' message) else None)"

definition assertPlayer :: "GameState \<Rightarrow> string \<Rightarrow> bool \<Rightarrow> error + Player" where
  "assertPlayer game pid mustBeAlive =
     (case getPlayer (players game) pid of
        None \<Rightarrow> Inl (GameRuleError ''PLAYER_NOT_FOUND'' (''Player '' @ pid @ '' not found''))
      | Some player \<Rightarrow>
          if mustBeAlive \<and> \<not> alive player
          then Inl (GameRuleError ''PLAYER_DEAD'' (''Player '' @ pid @ '' is dead''))
          else Inr player)"

subsection \<open>Lobby\<close>

definition toPlayer :: "PlayerIdentity \<Rightarrow> Player" where
  "toPlayer identity =
     \<lparr>accountId = idAccountId identity, playerId = idPlayerId identity, name = idName identity,
      role = SUBJECT, alive = True, connected = True,
      isHost = orElse (idIsHost identity) False\<rparr>"

definition reassignHost :: "Player list \<Rightarrow> Player list" where
  "reassignHost ps =
     (case ps of [] \<Rightarrow> ps
      | first # rest \<Rightarrow> if list_ex isHost ps then ps else first\<lparr>isHost := True\<rparr> # rest)"

definition createInitialGame ::
  "string \<Rightarrow> PlayerIdentity \<Rightarrow> GameOptionsOverrides option \<Rightarrow> GameState" where
  "createInitialGame gid hostIdentity overrides =
     \<lparr>gameId = gid, players = [toPlayer (hostIdentity\<lparr>idIsHost := Some True\<rparr>)],
      phase = LOBBY, dayNumber = 1, nightNumber = 1, accusedId = None, lastKilledId = None,
      phaseEndsAt = 0, winner = None, options = mergeOptions overrides, rolesAssigned = False,
      nightVotes = [], dayNominations = [], verdictVotes = []\<rparr>"

definition addPlayerToLobby :: "GameState \<Rightarrow> PlayerIdentity \<Rightarrow> error + GameState" where
  "addPlayerToLobby game identity =
     (case ensurePhase game [LOBBY] ''Players can only join during the lobby phase'' of
        Some e \<Rightarrow> Inl e
      | None \<Rightarrow>
          if list_ex (\<lambda>p. accountId p = idAccountId identity) (players game)
          then Inl (GameRuleError ''DUPLICATE_ACCOUNT'' ''Account already joined'')
          else Inr (game\<lparr>players := players game @ [toPlayer identity]\<rparr>))"

definition removePlayerFromLobby :: "GameState \<Rightarrow> string \<Rightarrow> error + GameState" where
  "removePlayerFromLobby game pid =
     (case ensurePhase game [LOBBY] ''Players can only leave during the lobby phase'' of
        Some e \<Rightarrow> Inl e
      | None \<Rightarrow>
          (case assertPlayer game pid False of
             Inl e \<Rightarrow> Inl e
           | Inr _ \<Rightarrow>
               let remaining = filter (\<lambda>p. playerId p \<noteq> pid) (players game)
               in Inr (game\<lparr>players := reassignHost remaining\<rparr>)))"

subsection \<open>Role assignment\<close>

text \<open>
  The Fisher-Yates loop runs \<open>i\<close> from \<open>length - 1\<close> down to \<open>1\<close> and draws once per
  round. A draw that sends \<open>j\<close> outside the array would store \<open>undefined\<close> in it; the
  model stops there with \<open>None\<close>.
\<close>

fun shuffleLoop :: "nat \<Rightarrow> nat \<Rightarrow> 'a list \<Rightarrow> RandomFn \<Rightarrow> 'a list option" where
  "shuffleLoop 0 k copy random = Some copy"
| "shuffleLoop (Suc i) k copy random =
     (let j = floorOfProduct (random k) (Suc i + 1)
      in if 0 \<le> j \<and> j < int (length copy)
         then shuffleLoop i (Suc k) ((copy[Suc i := copy ! nat j])[nat j := copy ! Suc i]) random
         else None)"

definition shuffle :: "'a list \<Rightarrow> RandomFn \<Rightarrow> 'a list option" where
  "shuffle items random = shuffleLoop (length items - 1) 0 items random"

definition assignRoles :: "GameState \<Rightarrow> RandomFn \<Rightarrow> error + GameState" where
  "assignRoles game random =
     (case ensurePhase game [LOBBY] ''Roles are assigned from the lobby phase'' of
        Some e \<Rightarrow> Inl e
      | None \<Rightarrow>
          if rolesAssigned game then Inr game
          else (case shuffle (players game) random of
                  None \<Rightarrow> Inl (OutsideModel ''random() outside [0, 1)'')
                | Some shuffled \<Rightarrow>
                    let traitorCount = max 1 (length shuffled div 4);
                        traitors = map (\<lambda>p. p\<lparr>role := TRAITOR, alive := True\<rparr>)
                                       (take traitorCount shuffled);
                        subjects = map (\<lambda>p. p\<lparr>role := SUBJECT, alive := True\<rparr>)
                                       (drop traitorCount shuffled)
                    in Inr (game\<lparr>players := traitors @ subjects, rolesAssigned := True\<rparr>)))"

subsection \<open>Night\<close>

definition startNight :: "GameState \<Rightarrow> int \<Rightarrow> error + GameState" where
  "startNight game now =
     (case ensurePhase game [LOBBY, DAY_DISCUSSION, DAY_VERDICT]
             ''Night can only start from lobby or day phases'' of
        Some e \<Rightarrow> Inl e
      | None \<Rightarrow>
          let nightNumber' = (if phase game = LOBBY then nightNumber game else nightNumber game + 1);
              traitors = filter (\<lambda>p. role p = TRAITOR) (livingPlayers (players game));
              nightVotes' = fromEntries (map (\<lambda>t. (playerId t, None)) traitors)
          in Inr (game\<lparr>phase := NIGHT, nightNumber := nightNumber', accusedId := None,
                       dayNominations := [], verdictVotes := [], nightVotes := nightVotes',
                       phaseEndsAt := now + night (durations (options game))\<rparr>))"

text \<open>Decimal rendering of a number inside a message template.\<close>

fun showNat :: "nat \<Rightarrow> string" where
  "showNat n = (if n < 10 then [char_of (48 + n)]
                else showNat (n div 10) @ [char_of (48 + n mod 10)])"

definition showInt :: "int \<Rightarrow> string" where
  "showInt i = (if i < 0 then CHR ''-'' # showNat (nat (- i)) else showNat (nat i))"

definition startGame :: "GameState \<Rightarrow> int \<Rightarrow> RandomFn \<Rightarrow> error + GameState" where
  "startGame game now random =
     (case ensurePhase game [LOBBY] ''Game can only start in the lobby phase'' of
        Some e \<Rightarrow> Inl e
      | None \<Rightarrow>
          if int (length (players game)) < minPlayers (options game)
          then Inl (GameRuleError ''NOT_ENOUGH_PLAYERS''
                      (''Need at least '' @ showInt (minPlayers (options game)) @ '' players''))
          else (case assignRoles game random of
                  Inl e \<Rightarrow> Inl e
                | Inr assigned \<Rightarrow> startNight assigned now))"

definition recordNightVote :: "GameState \<Rightarrow> string \<Rightarrow> string \<Rightarrow> error + GameState" where
  "recordNightVote game traitorId targetId =
     (case ensurePhase game [NIGHT] ''Night votes only apply during the night phase'' of
        Some e \<Rightarrow> Inl e
      | None \<Rightarrow>
          (case assertPlayer game traitorId True of
             Inl e \<Rightarrow> Inl e
           | Inr traitor \<Rightarrow>
               if role traitor \<noteq> TRAITOR
               then Inl (GameRuleError ''NOT_A_TRAITOR'' ''Only traitors vote at night'')
               else (case assertPlayer game targetId True of
                       Inl e \<Rightarrow> Inl e
                     | Inr target \<Rightarrow>
                         Inr (game\<lparr>nightVotes :=
                                recordSet (nightVotes game) (playerId traitor)
                                  (Some (playerId target))\<rparr>))))"

text \<open>\<open>Object.values(game.nightVotes).filter(Boolean)\<close>: the night votes that count as cast.\<close>

definition castNightVotes :: "GameState \<Rightarrow> string option list" where
  "castNightVotes game = filter truthy (map snd (nightVotes game))"

definition areNightVotesComplete :: "GameState \<Rightarrow> error + bool" where
  "areNightVotesComplete game =
     (case ensurePhase game [NIGHT] ''Only check completeness during night'' of
        Some e \<Rightarrow> Inl e
      | None \<Rightarrow>
          let traitorsAlive = countAlive (players game) (Some TRAITOR);
              votes = length (castNightVotes game)
          in Inr (votes = traitorsAlive \<and> traitorsAlive > 0))"

text \<open>
  The tally is a \<open>Map\<close>, kept as an association list in insertion order.
  \<open>tallyGet\<close> is \<open>tally.get(target) ?? 0\<close>.
\<close>

definition tallyGet :: "(string \<times> nat) list \<Rightarrow> string \<Rightarrow> nat" where
  "tallyGet tally target = (case map_of tally target of None \<Rightarrow> 0 | Some c \<Rightarrow> c)"

fun tallySet :: "(string \<times> nat) list \<Rightarrow> string \<Rightarrow> nat \<Rightarrow> (string \<times> nat) list" where
  "tallySet [] k v = [(k, v)]"
| "tallySet ((k', v') # m) k v = (if k' = k then (k', v) # m else (k', v') # tallySet m k v)"

text \<open>The body of the tally loop: a falsy target is skipped.\<close>

definition tallyStep :: "(string \<times> nat) list \<Rightarrow> string option \<Rightarrow> (string \<times> nat) list" where
  "tallyStep tally target =
     (if \<not> truthy target then tally
      else case target of None \<Rightarrow> tally
           | Some t \<Rightarrow> tallySet tally t (tallyGet tally t + 1))"

definition tallyVotes :: "string Ballots \<Rightarrow> (string \<times> nat) list" where
  "tallyVotes votes = foldl tallyStep [] (map snd votes)"

text \<open>\<open>markDead\<close> is the write \<open>victim.alive = false\<close> to the element \<open>getPlayer\<close> returned.\<close>

fun markDead :: "string \<Rightarrow> Player list \<Rightarrow> Player list" where
  "markDead pid [] = []"
| "markDead pid (p # ps) = (if playerId p = pid then p\<lparr>alive := False\<rparr> # ps
                            else p # markDead pid ps)"

text \<open>
  The victim selection of \<open>resolveNight\<close> for a non-empty tally: top score, leaders in
  tally order, then the single leader or a random one.
\<close>

definition leadersOf :: "(string \<times> nat) list \<Rightarrow> string list" where
  "leadersOf votes =
     (let topScore = fold max (map snd votes) 0
      in map fst (filter (\<lambda>(target, score). score = topScore) votes))"

definition chooseVictim :: "(string \<times> nat) list \<Rightarrow> RandomFn \<Rightarrow> error + string option" where
  "chooseVictim votes random =
     (let leaders = leadersOf votes
      in if length leaders = 1 then Inr (Some (leaders ! 0)) else randomItem leaders random)"

text \<open>
  The block of \<open>resolveNight\<close> guarded by \<open>votes.size > 0\<close>; the result is the player
  array after the block together with \<open>killed\<close>.
\<close>

definition nightKill ::
  "Player list \<Rightarrow> (string \<times> nat) list \<Rightarrow> RandomFn \<Rightarrow> error + Player list \<times> string option" where
  "nightKill players0 votes random =
     (if length votes > 0
      then (case chooseVictim votes random of
              Inl e \<Rightarrow> Inl e
            | Inr None \<Rightarrow> Inr (players0, None)
            | Inr (Some victimId) \<Rightarrow>
                (case getPlayer players0 victimId of
                   None \<Rightarrow> Inr (players0, None)
                 | Some victim \<Rightarrow>
                     if alive victim
                     then Inr (markDead (playerId victim) players0, Some (playerId victim))
                     else Inr (players0, None)))
      else Inr (players0, None))"

definition resolveNight :: "GameState \<Rightarrow> int \<Rightarrow> RandomFn \<Rightarrow> error + GameState" where
  "resolveNight game now random =
     (case ensurePhase game [NIGHT] ''Night resolution only runs from the night phase'' of
        Some e \<Rightarrow> Inl e
      | None \<Rightarrow>
          (case nightKill (clonePlayers (players game)) (tallyVotes (nightVotes game)) random of
             Inl e \<Rightarrow> Inl e
           | Inr (players1, killed) \<Rightarrow>
               let baseState = game\<lparr>players := players1, lastKilledId := killed,
                                     nightVotes := [], phaseEndsAt := now\<rparr>
               in (case checkWin baseState of
                     Some w \<Rightarrow>
                       Inr (baseState\<lparr>phase := GAME_OVER, winner := Some w,
                                       dayNominations := [], verdictVotes := []\<rparr>)
                   | None \<Rightarrow>
                       Inr (baseState\<lparr>phase := DAY_DISCUSSION, dayNumber := dayNumber game + 1,
                              accusedId := None, dayNominations := [], verdictVotes := [],
                              phaseEndsAt := now + dayDiscussion (durations (options game))\<rparr>))))"

subsection \<open>Day\<close>

definition startTrial :: "GameState \<Rightarrow> string \<Rightarrow> int \<Rightarrow> error + GameState" where
  "startTrial game accused now =
     (case ensurePhase game [DAY_DISCUSSION] ''Trials start from day discussion'' of
        Some e \<Rightarrow> Inl e
      | None \<Rightarrow>
          (case assertPlayer game accused True of
             Inl e \<Rightarrow> Inl e
           | Inr _ \<Rightarrow>
               Inr (game\<lparr>phase := TRIAL, accusedId := Some accused, verdictVotes := [],
                          phaseEndsAt := now + trial (durations (options game))\<rparr>)))"

definition recordNomination ::
  "GameState \<Rightarrow> string \<Rightarrow> string \<Rightarrow> int \<Rightarrow> error + GameState" where
  "recordNomination game voterId targetId now =
     (case ensurePhase game [DAY_DISCUSSION] ''Nominations only apply during day discussion'' of
        Some e \<Rightarrow> Inl e
      | None \<Rightarrow>
          (case assertPlayer game voterId True of
             Inl e \<Rightarrow> Inl e
           | Inr voter \<Rightarrow>
               (case assertPlayer game targetId True of
                  Inl e \<Rightarrow> Inl e
                | Inr target \<Rightarrow>
                    let updated = game\<lparr>dayNominations :=
                                    recordSet (dayNominations game) (playerId voter)
                                      (Some (playerId target))\<rparr>;
                        tally = tallyVotes (dayNominations updated);
                        aliveCount = length (livingPlayers (players game));
                        threshold = majorityThreshold aliveCount;
                        votesForTarget = tallyGet tally (playerId target)
                    in if votesForTarget \<ge> threshold
                       then startTrial updated (playerId target) now
                       else Inr updated)))"

definition startDayVerdict :: "GameState \<Rightarrow> int \<Rightarrow> error + GameState" where
  "startDayVerdict game now =
     (case ensurePhase game [TRIAL] ''Verdict phase only follows a trial'' of
        Some e \<Rightarrow> Inl e
      | None \<Rightarrow>
          if \<not> truthy (accusedId game)
          then Inl (GameRuleError ''NO_ACCUSED'' ''No accused player to vote on'')
          else let voters = livingPlayers (players game);
                   verdictVotes' = fromEntries (map (\<lambda>p. (playerId p, None)) voters)
               in Inr (game\<lparr>phase := DAY_VERDICT, verdictVotes := verdictVotes',
                            phaseEndsAt := now + dayVerdict (durations (options game))\<rparr>))"

text \<open>
  The choice arrives as a string from the wire; \<open>parseChoice\<close> is the membership test
  \<open>["HANG", "SPARE"].includes(choice)\<close> together with the value that is stored.
\<close>

definition parseChoice :: "string \<Rightarrow> VerdictChoice option" where
  "parseChoice c = (if c = ''HANG'' then Some HANG else if c = ''SPARE'' then Some SPARE else None)"

definition recordVerdictVote :: "GameState \<Rightarrow> string \<Rightarrow> string \<Rightarrow> error + GameState" where
  "recordVerdictVote game voterId choice =
     (case ensurePhase game [DAY_VERDICT] ''Verdict votes occur during the verdict phase'' of
        Some e \<Rightarrow> Inl e
      | None \<Rightarrow>
          (case assertPlayer game voterId True of
             Inl e \<Rightarrow> Inl e
           | Inr voter \<Rightarrow>
               if \<not> hasOwnProperty (verdictVotes game) (playerId voter)
               then Inl (GameRuleError ''NOT_A_VOTER'' ''Player cannot vote in this verdict'')
               else (case parseChoice choice of
                       None \<Rightarrow> Inl (GameRuleError ''INVALID_CHOICE'' ''Choice must be HANG or SPARE'')
                     | Some c \<Rightarrow>
                         Inr (game\<lparr>verdictVotes :=
                                recordSet (verdictVotes game) (playerId voter) (Some c)\<rparr>))))"

text \<open>
  The counting loop of \<open>resolveDayVerdict\<close> over \<open>Object.entries(game.verdictVotes)\<close>;
  the pair is \<open>(hangVotes, spareVotes)\<close>.
\<close>

definition countVerdicts :: "string list \<Rightarrow> VerdictChoice Ballots \<Rightarrow> nat \<times> nat" where
  "countVerdicts livingIds votes =
     foldl (\<lambda>(hangVotes, spareVotes) (voterId, choice).
              case choice of None \<Rightarrow> (hangVotes, spareVotes)
              | Some c \<Rightarrow>
                  if voterId \<notin> set livingIds then (hangVotes, spareVotes)
                  else if c = HANG then (hangVotes + 1, spareVotes)
                  else (hangVotes, spareVotes + 1))
           (0, 0) votes"

text \<open>
  The kill decision of \<open>resolveDayVerdict\<close>: the player array after it and \<open>killed\<close>.
\<close>

definition verdictKill ::
  "Player list \<Rightarrow> string option \<Rightarrow> nat \<Rightarrow> nat \<Rightarrow> Player list \<times> string option" where
  "verdictKill players0 accusedId' hangVotes spareVotes =
     (case accusedId' of
        None \<Rightarrow> (players0, None)
      | Some a \<Rightarrow>
          (case getPlayer players0 a of
             None \<Rightarrow> (players0, None)
           | Some accused \<Rightarrow>
               if hangVotes > spareVotes \<and> alive accused
               then (markDead (playerId accused) players0, Some (playerId accused))
               else (players0, None)))"

definition resolveDayVerdict :: "GameState \<Rightarrow> int \<Rightarrow> error + GameState" where
  "resolveDayVerdict game now =
     (case ensurePhase game [DAY_VERDICT] ''Resolve verdict only from verdict phase'' of
        Some e \<Rightarrow> Inl e
      | None \<Rightarrow>
          if \<not> truthy (accusedId game)
          then Inl (GameRuleError ''NO_ACCUSED'' ''No accused player to resolve'')
          else
            let players0 = clonePlayers (players game);
                livingIds = map playerId (livingPlayers players0);
                (hangVotes, spareVotes) = countVerdicts livingIds (verdictVotes game);
                (players1, killed) = verdictKill players0 (accusedId game) hangVotes spareVotes;
                baseState = game\<lparr>players := players1,
                                  lastKilledId := (case killed of None \<Rightarrow> lastKilledId game
                                                   | Some k \<Rightarrow> Some k),
                                  verdictVotes := [], accusedId := None, phaseEndsAt := now\<rparr>
            in (case checkWin baseState of
                  Some w \<Rightarrow> Inr (baseState\<lparr>phase := GAME_OVER, winner := Some w\<rparr>)
                | None \<Rightarrow> startNight baseState now))"

definition skipDayToNight :: "GameState \<Rightarrow> int \<Rightarrow> error + GameState" where
  "skipDayToNight game now =
     (case ensurePhase game [DAY_DISCUSSION] ''Only discussion can skip straight to night'' of
        Some e \<Rightarrow> Inl e
      | None \<Rightarrow> startNight (game\<lparr>dayNominations := [], accusedId := None\<rparr>) now)"

definition setPlayerConnection :: "GameState \<Rightarrow> string \<Rightarrow> bool \<Rightarrow> GameState" where
  "setPlayerConnection game pid conn =
     (case getPlayer (players game) pid of
        None \<Rightarrow> game
      | Some _ \<Rightarrow>
          game\<lparr>players := map (\<lambda>p. if playerId p = pid then p\<lparr>connected := conn\<rparr> else p)
                              (players game)\<rparr>)"

subsection \<open>The documented copy of the transitions file\<close>

text \<open>
  The sources hold a second, documented copy of the transitions file. It differs from
  \<open>src/engine/transitions.ts\<close> in two guards: \<open>startNight\<close> refuses a lobby without
  roles, and \<open>recordNightVote\<close> refuses a traitor without a ballot entry.
\<close>

definition startNightGuarded :: "GameState \<Rightarrow> int \<Rightarrow> error + GameState" where
  "startNightGuarded game now =
     (case ensurePhase game [LOBBY, DAY_DISCUSSION, DAY_VERDICT]
             ''Night can only start from lobby or day phases'' of
        Some e \<Rightarrow> Inl e
      | None \<Rightarrow>
          if phase game = LOBBY \<and> \<not> rolesAssigned game
          then Inl (GameRuleError ''ROLES_NOT_ASSIGNED'' ''Cannot start night before assigning roles'')
          else startNight game now)"

definition recordNightVoteGuarded :: "GameState \<Rightarrow> string \<Rightarrow> string \<Rightarrow> error + GameState" where
  "recordNightVoteGuarded game traitorId targetId =
     (case ensurePhase game [NIGHT] ''Night votes only apply during the night phase'' of
        Some e \<Rightarrow> Inl e
      | None \<Rightarrow>
          (case assertPlayer game traitorId True of
             Inl e \<Rightarrow> Inl e
           | Inr traitor \<Rightarrow>
               if role traitor \<noteq> TRAITOR
               then Inl (GameRuleError ''NOT_A_TRAITOR'' ''Only traitors vote at night'')
               else if \<not> hasOwnProperty (nightVotes game) (playerId traitor)
               then Inl (GameRuleError ''NOT_A_NIGHT_VOTER''
                           ''Player is not scheduled to vote this night'')
               else (case assertPlayer game targetId True of
                       Inl e \<Rightarrow> Inl e
                     | Inr target \<Rightarrow>
                         Inr (game\<lparr>nightVotes :=
                                recordSet (nightVotes game) (playerId traitor)
                                  (Some (playerId target))\<rparr>))))"

section \<open>Example snapshots\<close>

text \<open>
  \<open>createPlayer\<close>, \<open>makeState\<close> and \<open>baseState\<close> are the helpers of
  tests/engine/transitions.test.ts and tests/engine/win.test.ts; the snapshots below are
  built with them, several are the very states of those tests.
\<close>

definition createPlayer :: "string \<Rightarrow> Role \<Rightarrow> bool \<Rightarrow> Player" where
  "createPlayer pid r a =
     \<lparr>accountId = pid, playerId = pid, name = pid, role = r, alive = a, connected = True,
      isHost = (pid = ''host'')\<rparr>"

definition makeState :: GameState where
  "makeState =
     \<lparr>gameId = ''game'', players = [], phase = LOBBY, dayNumber = 1, nightNumber = 1,
      accusedId = None, lastKilledId = None, phaseEndsAt = 0, winner = None,
      options = DEFAULT_GAME_OPTIONS, rolesAssigned = True,
      nightVotes = [], dayNominations = [], verdictVotes = []\<rparr>"

definition baseState :: "Player list \<Rightarrow> Winner option \<Rightarrow> GameState" where
  "baseState ps w = makeState\<lparr>players := ps, phase := DAY_DISCUSSION, winner := w\<rparr>"

definition lobbyHost :: PlayerIdentity where
  "lobbyHost =
     \<lparr>idAccountId = ''host'', idPlayerId = ''host'', idName = ''Host'', idIsHost = None\<rparr>"

definition badState :: GameState where
  "badState =
     makeState\<lparr>players := [createPlayer ''t1'' TRAITOR True, createPlayer ''s1'' SUBJECT True],
               phase := NIGHT, nightVotes := []\<rparr>"

definition viewGame :: GameState where
  "viewGame =
     makeState\<lparr>players := [createPlayer ''p1'' SUBJECT True, createPlayer ''p2'' SUBJECT True,
                           createPlayer ''p3'' TRAITOR True],
               phase := NIGHT\<rparr>"

definition viewGameSwapped :: GameState where
  "viewGameSwapped =
     makeState\<lparr>players := [createPlayer ''p1'' SUBJECT True, createPlayer ''p2'' TRAITOR True,
                           createPlayer ''p3'' SUBJECT True],
               phase := NIGHT\<rparr>"



definition staleVerdict :: GameState where
  "staleVerdict =
     makeState\<lparr>players := [createPlayer ''p1'' SUBJECT True,
                           (createPlayer ''p2'' SUBJECT True)\<lparr>connected := False\<rparr>,
                           createPlayer ''p3'' SUBJECT True, createPlayer ''p4'' SUBJECT False],
               phase := DAY_VERDICT, accusedId := Some ''p3'', lastKilledId := Some ''p4'',
               verdictVotes := [(''p1'', Some HANG), (''p2'', None), (''p3'', Some SPARE),
                                (''p4'', Some HANG)]\<rparr>"


definition tieNight :: GameState where
  "tieNight =
     makeState\<lparr>players := [createPlayer ''t1'' TRAITOR True, createPlayer ''t2'' TRAITOR True,
                           createPlayer ''s1'' SUBJECT True, createPlayer ''s2'' SUBJECT True],
               phase := NIGHT, nightVotes := [(''t1'', Some ''s1''), (''t2'', Some ''s2'')]\<rparr>"

definition deadTargetNight :: GameState where
  "deadTargetNight =
     makeState\<lparr>players := [createPlayer ''t1'' TRAITOR True, createPlayer ''s1'' SUBJECT False],
               phase := NIGHT, nightVotes := [(''t1'', Some ''s1'')]\<rparr>"

text \<open>The doubles written 0.9 and 0.3333333333333333 in JavaScript.\<close>

definition double_0_9 :: rat where
  "double_0_9 = 8106479329266893 / 9007199254740992"

definition double_0_3333333333333333 :: rat where
  "double_0_3333333333333333 = 6004799503160661 / 18014398509481984"

definition threeWayNight :: GameState where
  "threeWayNight =
     makeState\<lparr>players := [createPlayer ''t1'' TRAITOR True, createPlayer ''t2'' TRAITOR True,
                           createPlayer ''t3'' TRAITOR True, createPlayer ''s1'' SUBJECT True,
                           createPlayer ''s2'' SUBJECT True, createPlayer ''s3'' SUBJECT True,
                           createPlayer ''s4'' SUBJECT True, createPlayer ''s5'' SUBJECT True,
                           createPlayer ''s6'' SUBJECT True, createPlayer ''s7'' SUBJECT True],
               phase := NIGHT,
               nightVotes := [(''t1'', Some ''s1''), (''t2'', Some ''s2''), (''t3'', Some ''s3'')]\<rparr>"

section \<open>Notions of the specification\<close>

text \<open>
  Two snapshots differ only in the role fields of players other than the viewer: every
  field outside the player list is the same, the player lists agree position by position
  in everything but the role, and a player carrying the viewer's id has the same role.
\<close>

definition differOnlyInOtherRoles :: "string \<Rightarrow> GameState \<Rightarrow> GameState \<Rightarrow> bool" where
  "differOnlyInOtherRoles viewerId g g' =
     (g' = g\<lparr>players := players g'\<rparr> \<and>
      list_all2 (\<lambda>p p'. p' = p\<lparr>role := role p'\<rparr> \<and> (playerId p = viewerId \<longrightarrow> role p' = role p))
        (players g) (players g'))"

text \<open>
  The two snapshot invariants: without assigned roles the phase is LOBBY, and a winner is
  recorded exactly in phase GAME_OVER.
\<close>

definition snapshotInvariant :: "GameState \<Rightarrow> bool" where
  "snapshotInvariant g =
     ((rolesAssigned g \<or> phase g = LOBBY) \<and> ((winner g \<noteq> None) = (phase g = GAME_OVER)))"

text \<open>The seated player with this id (the one \<open>getPlayer\<close> finds) is alive.\<close>

definition seatedAlive :: "Player list \<Rightarrow> string \<Rightarrow> bool" where
  "seatedAlive ps pid = (case getPlayer ps pid of None \<Rightarrow> False | Some p \<Rightarrow> alive p)"

text \<open>
  The verdict ballots that count: cast (not null) with the given choice, by a voter whose
  id belongs to a living player.
\<close>

definition castLivingBallots :: "GameState \<Rightarrow> VerdictChoice \<Rightarrow> nat" where
  "castLivingBallots g c =
     length (filter (\<lambda>(voter, choice). choice = Some c \<and>
                        voter \<in> set (map playerId (livingPlayers (players g))))
               (verdictVotes g))"

text \<open>
  The number of ballots that name a target, and the targets that hold the maximum of these
  numbers among the targets named by some ballot (the empty id, which the tally never
  counts, left aside).
\<close>

definition votesFor :: "string Ballots \<Rightarrow> string \<Rightarrow> nat" where
  "votesFor votes t = length (filter (\<lambda>v. v = Some t) (map snd votes))"

definition isCastTarget :: "string Ballots \<Rightarrow> string \<Rightarrow> bool" where
  "isCastTarget votes t = (t \<noteq> [] \<and> Some t \<in> set (map snd votes))"

definition isTopTarget :: "string Ballots \<Rightarrow> string \<Rightarrow> bool" where
  "isTopTarget votes t =
     (isCastTarget votes t \<and>
      list_all (\<lambda>v. case v of None \<Rightarrow> True
                     | Some u \<Rightarrow> u = [] \<or> votesFor votes u \<le> votesFor votes t)
        (map snd votes))"

text \<open>
  The seat \<open>getPlayer\<close> finds for an id is the first one carrying it; killing a player
  writes \<open>alive = false\<close> at that seat and nowhere else.
\<close>

definition firstSeat :: "Player list \<Rightarrow> string \<Rightarrow> nat" where
  "firstSeat ps pid = length (takeWhile (\<lambda>p. playerId p \<noteq> pid) ps)"

definition withSeatKilled :: "Player list \<Rightarrow> string \<Rightarrow> Player list" where
  "withSeatKilled ps pid = ps[firstSeat ps pid := (ps ! firstSeat ps pid)\<lparr>alive := False\<rparr>]"

text \<open>
  The targets of the cast votes, each once, in the order of their first vote; and among
  them, in the same order, those holding the maximum tally.
\<close>

definition castTargetsInOrder :: "string Ballots \<Rightarrow> string list" where
  "castTargetsInOrder votes = rev (remdups (rev (map the (filter truthy (map snd votes)))))"

definition topTargets :: "string Ballots \<Rightarrow> string list" where
  "topTargets votes = filter (isTopTarget votes) (castTargetsInOrder votes)"

text \<open>
  The night-vote tie-break in the words of the specification: the single top target, or on
  a tie the tied target at the index the random source gives for the number of tied
  targets; no target when that index is outside the tied list.
\<close>

definition specNightVictim :: "string Ballots \<Rightarrow> RandomFn \<Rightarrow> string option" where
  "specNightVictim votes random =
     (let tied = topTargets votes
      in if length tied = 1 then Some (tied ! 0)
         else let idx = floorOfProduct (random 0) (length tied)
              in if 0 \<le> idx \<and> idx < int (length tied) then Some (tied ! nat idx) else None)"

section \<open>Basic facts\<close>

lemmas fixture_defs = makeState_def createPlayer_def DEFAULT_GAME_OPTIONS_def

lemma clonePlayers_id [simp]: "clonePlayers ps = ps"
  by (simp add: clonePlayers_def)

lemma getPlayer_playerId: "getPlayer ps pid = Some p \<Longrightarrow> playerId p = pid"
  by (auto simp: getPlayer_def find_Some_iff)

lemma checkWin_None_winner: "checkWin s = None \<Longrightarrow> winner s = None"
  by (cases "winner s") (auto simp: checkWin_def)

section \<open>Snapshot invariants\<close>

text \<open>The shape of a successful night resolution and of a verdict resolution.\<close>

lemma resolveNight_cases:
  assumes "resolveNight g now random = Inr g'"
  obtains ps1 k w where "phase g = NIGHT"
      "nightKill (clonePlayers (players g)) (tallyVotes (nightVotes g)) random = Inr (ps1, k)"
      "checkWin (g\<lparr>players := ps1, lastKilledId := k, nightVotes := [], phaseEndsAt := now\<rparr>) = Some w"
      "g' = g\<lparr>players := ps1, lastKilledId := k, nightVotes := [], phaseEndsAt := now,
              phase := GAME_OVER, winner := Some w, dayNominations := [], verdictVotes := []\<rparr>"
  | ps1 k where "phase g = NIGHT"
      "nightKill (clonePlayers (players g)) (tallyVotes (nightVotes g)) random = Inr (ps1, k)"
      "checkWin (g\<lparr>players := ps1, lastKilledId := k, nightVotes := [], phaseEndsAt := now\<rparr>) = None"
      "g' = g\<lparr>players := ps1, lastKilledId := k, nightVotes := [], phaseEndsAt := now,
              phase := DAY_DISCUSSION, dayNumber := dayNumber g + 1, accusedId := None,
              dayNominations := [], verdictVotes := [],
              phaseEndsAt := now + dayDiscussion (durations (options g))\<rparr>"
proof -
  from assms have ph: "phase g = NIGHT"
    by (simp add: resolveNight_def ensurePhase_def split: if_splits)
  with assms obtain ps1 k where
    nk: "nightKill (clonePlayers (players g)) (tallyVotes (nightVotes g)) random = Inr (ps1, k)"
    by (cases "nightKill (clonePlayers (players g)) (tallyVotes (nightVotes g)) random")
       (auto simp: resolveNight_def ensurePhase_def)
  show thesis
  proof (cases "checkWin (g\<lparr>players := ps1, lastKilledId := k, nightVotes := [], phaseEndsAt := now\<rparr>)")
    case None
    with assms ph nk have "g' = g\<lparr>players := ps1, lastKilledId := k, nightVotes := [], phaseEndsAt := now,
              phase := DAY_DISCUSSION, dayNumber := dayNumber g + 1, accusedId := None,
              dayNominations := [], verdictVotes := [],
              phaseEndsAt := now + dayDiscussion (durations (options g))\<rparr>"
      by (simp add: resolveNight_def ensurePhase_def Let_def)
    with ph nk None show ?thesis by (rule that(2))
  next
    case (Some w)
    with assms ph nk have "g' = g\<lparr>players := ps1, lastKilledId := k, nightVotes := [], phaseEndsAt := now,
              phase := GAME_OVER, winner := Some w, dayNominations := [], verdictVotes := []\<rparr>"
      by (simp add: resolveNight_def ensurePhase_def Let_def)
    with ph nk Some show ?thesis by (rule that(1))
  qed
qed

lemma resolveDayVerdict_unfold:
  fixes g now ps1 k
  defines "base \<equiv> g\<lparr>players := ps1,
                   lastKilledId := (case k of None \<Rightarrow> lastKilledId g | Some x \<Rightarrow> Some x),
                   verdictVotes := [], accusedId := None, phaseEndsAt := now\<rparr>"
  assumes "phase g = DAY_VERDICT" and "truthy (accusedId g)"
    and "countVerdicts (map playerId (livingPlayers (players g))) (verdictVotes g) = (h, s)"
    and "verdictKill (players g) (accusedId g) h s = (ps1, k)"
  shows "resolveDayVerdict g now =
           (case checkWin base of
              Some w \<Rightarrow> Inr (base\<lparr>phase := GAME_OVER, winner := Some w\<rparr>)
            | None \<Rightarrow> startNight base now)"
  using assms(2-) unfolding base_def
  by (simp add: resolveDayVerdict_def ensurePhase_def Let_def)

lemma startNight_from_verdict:
  assumes "phase b = DAY_VERDICT"
  shows "startNight b now =
           Inr (b\<lparr>phase := NIGHT, nightNumber := nightNumber b + 1, accusedId := None,
                  dayNominations := [], verdictVotes := [],
                  nightVotes := fromEntries (map (\<lambda>t. (playerId t, None))
                                  (filter (\<lambda>p. role p = TRAITOR) (livingPlayers (players b)))),
                  phaseEndsAt := now + night (durations (options b))\<rparr>)"
  using assms by (simp add: startNight_def ensurePhase_def Let_def)

lemma resolveDayVerdict_result:
  assumes ph: "phase g = DAY_VERDICT" and acc: "truthy (accusedId g)"
    and cv: "countVerdicts (map playerId (livingPlayers (players g))) (verdictVotes g) = (h, s)"
    and vk: "verdictKill (players g) (accusedId g) h s = (ps1, k)"
  shows "\<exists>g'. resolveDayVerdict g now = Inr g' \<and> players g' = ps1 \<and>
           lastKilledId g' = (case k of None \<Rightarrow> lastKilledId g | Some x \<Rightarrow> Some x) \<and>
           accusedId g' = None \<and> verdictVotes g' = [] \<and>
           rolesAssigned g' = rolesAssigned g \<and>
           ((phase g' = GAME_OVER \<and> winner g' \<noteq> None) \<or>
            (phase g' = NIGHT \<and> winner g' = None \<and> winner g = None))"
proof -
  define base where "base = g\<lparr>players := ps1,
                   lastKilledId := (case k of None \<Rightarrow> lastKilledId g | Some x \<Rightarrow> Some x),
                   verdictVotes := [], accusedId := None, phaseEndsAt := now\<rparr>"
  have eq: "resolveDayVerdict g now =
           (case checkWin base of
              Some w \<Rightarrow> Inr (base\<lparr>phase := GAME_OVER, winner := Some w\<rparr>)
            | None \<Rightarrow> startNight base now)"
    unfolding base_def by (rule resolveDayVerdict_unfold [OF ph acc cv vk])
  show ?thesis
  proof (cases "checkWin base")
    case None
    have "phase base = DAY_VERDICT" using ph by (simp add: base_def)
    note sn = startNight_from_verdict [OF this, of now]
    from checkWin_None_winner [OF None] have "winner g = None" by (simp add: base_def)
    with eq None sn show ?thesis by (simp add: base_def)
  next
    case (Some w)
    with eq show ?thesis by (simp add: base_def)
  qed
qed

text \<open>
  Every transition keeps both invariants, \<open>startNight\<close> only when it does not start from
  a lobby without roles.
\<close>

lemma addPlayerToLobby_inv:
  "snapshotInvariant g \<Longrightarrow> addPlayerToLobby g i = Inr g' \<Longrightarrow> snapshotInvariant g'"
  by (auto simp: addPlayerToLobby_def ensurePhase_def snapshotInvariant_def split: if_splits)

lemma removePlayerFromLobby_inv:
  "snapshotInvariant g \<Longrightarrow> removePlayerFromLobby g pid = Inr g' \<Longrightarrow> snapshotInvariant g'"
  by (auto simp: removePlayerFromLobby_def ensurePhase_def snapshotInvariant_def Let_def
      split: if_splits sum.splits)

lemma assignRoles_inv:
  "snapshotInvariant g \<Longrightarrow> assignRoles g random = Inr g' \<Longrightarrow> snapshotInvariant g' \<and> rolesAssigned g' \<and> phase g' = LOBBY"
  by (auto simp: assignRoles_def ensurePhase_def snapshotInvariant_def Let_def
      split: if_splits option.splits)

lemma startNight_inv:
  "snapshotInvariant g \<Longrightarrow> phase g = LOBBY \<longrightarrow> rolesAssigned g \<Longrightarrow> startNight g now = Inr g'
   \<Longrightarrow> snapshotInvariant g'"
  by (auto simp: startNight_def ensurePhase_def snapshotInvariant_def Let_def split: if_splits)

lemma startNightGuarded_inv:
  assumes "snapshotInvariant g" and "startNightGuarded g now = Inr g'"
  shows "snapshotInvariant g'"
proof -
  from assms(2) have "phase g = LOBBY \<longrightarrow> rolesAssigned g" and "startNight g now = Inr g'"
    by (auto simp: startNightGuarded_def split: option.splits if_splits)
  with assms(1) show ?thesis by (blast intro: startNight_inv)
qed

lemma startGame_inv:
  assumes "snapshotInvariant g" and "startGame g now random = Inr g'"
  shows "snapshotInvariant g'"
proof -
  from assms(2) obtain a where a: "assignRoles g random = Inr a" and n: "startNight a now = Inr g'"
    by (auto simp: startGame_def split: option.splits if_splits sum.splits)
  from assignRoles_inv [OF assms(1) a] n show ?thesis
    by (blast intro: startNight_inv)
qed

lemma recordNightVote_inv:
  "snapshotInvariant g \<Longrightarrow> recordNightVote g v t = Inr g' \<Longrightarrow> snapshotInvariant g'"
  by (auto simp: recordNightVote_def ensurePhase_def snapshotInvariant_def
      split: if_splits sum.splits)

lemma resolveNight_inv:
  assumes inv: "snapshotInvariant g" and r: "resolveNight g now random = Inr g'"
  shows "snapshotInvariant g'"
  using r
proof (cases rule: resolveNight_cases)
  case (1 ps1 k w)
  with inv show ?thesis by (simp add: snapshotInvariant_def)
next
  case (2 ps1 k)
  from checkWin_None_winner [OF 2(3)] have "winner g = None" by simp
  with 2 inv show ?thesis by (simp add: snapshotInvariant_def)
qed

lemma startTrial_inv:
  "snapshotInvariant g \<Longrightarrow> startTrial g a now = Inr g' \<Longrightarrow> snapshotInvariant g'"
  by (auto simp: startTrial_def ensurePhase_def snapshotInvariant_def
      split: if_splits sum.splits)

lemma recordNomination_inv:
  "snapshotInvariant g \<Longrightarrow> recordNomination g v t now = Inr g' \<Longrightarrow> snapshotInvariant g'"
  unfolding recordNomination_def Let_def
  by (auto simp: ensurePhase_def snapshotInvariant_def startTrial_def
      split: if_splits sum.splits)

lemma startDayVerdict_inv:
  "snapshotInvariant g \<Longrightarrow> startDayVerdict g now = Inr g' \<Longrightarrow> snapshotInvariant g'"
  by (auto simp: startDayVerdict_def ensurePhase_def snapshotInvariant_def Let_def
      split: if_splits sum.splits)

lemma recordVerdictVote_inv:
  "snapshotInvariant g \<Longrightarrow> recordVerdictVote g v c = Inr g' \<Longrightarrow> snapshotInvariant g'"
  by (auto simp: recordVerdictVote_def ensurePhase_def snapshotInvariant_def
      split: if_splits sum.splits option.splits)

lemma resolveDayVerdict_inv:
  assumes inv: "snapshotInvariant g" and r: "resolveDayVerdict g now = Inr g'"
  shows "snapshotInvariant g'"
proof -
  from r have ph: "phase g = DAY_VERDICT"
    by (simp add: resolveDayVerdict_def ensurePhase_def split: if_splits)
  with r have acc: "truthy (accusedId g)"
    by (simp add: resolveDayVerdict_def ensurePhase_def split: if_splits)
  obtain h s where cv: "countVerdicts (map playerId (livingPlayers (players g))) (verdictVotes g) = (h, s)"
    by (cases "countVerdicts (map playerId (livingPlayers (players g))) (verdictVotes g)")
  obtain ps1 k where vk: "verdictKill (players g) (accusedId g) h s = (ps1, k)"
    by (cases "verdictKill (players g) (accusedId g) h s")
  from resolveDayVerdict_result [OF ph acc cv vk, of now] r inv ph show ?thesis
    by (auto simp: snapshotInvariant_def)
qed

lemma skipDayToNight_inv:
  "snapshotInvariant g \<Longrightarrow> skipDayToNight g now = Inr g' \<Longrightarrow> snapshotInvariant g'"
  by (auto simp: skipDayToNight_def ensurePhase_def snapshotInvariant_def startNight_def Let_def
      split: if_splits sum.splits option.splits)

lemma setPlayerConnection_inv:
  "snapshotInvariant g \<Longrightarrow> snapshotInvariant (setPlayerConnection g pid c)"
  by (auto simp: setPlayerConnection_def snapshotInvariant_def split: option.splits)


text \<open>
  C1: every transition that returns a snapshot must keep both invariants (no roles
  assigned only in LOBBY; a winner exactly in GAME_OVER). The fresh lobby satisfies them;
  \<open>startNight\<close> of src/engine/transitions.ts returns from it a snapshot in phase NIGHT
  without assigned roles, which breaks the first invariant.
\<close>

theorem startNight_breaks_roles_invariant:
  "snapshotInvariant (createInitialGame ''g1'' lobbyHost None) \<and>
   (case startNight (createInitialGame ''g1'' lobbyHost None) 7 of
      Inl e \<Rightarrow> False
    | Inr g' \<Rightarrow> phase g' = NIGHT \<and> rolesAssigned g' = False \<and> snapshotInvariant g' = False)"
  by (simp add: startNight_def createInitialGame_def ensurePhase_def snapshotInvariant_def Let_def)

section \<open>The win evaluator\<close>

lemma countAlive_split:
  "countAlive ps (Some SUBJECT) + countAlive ps (Some TRAITOR) = length (livingPlayers ps)"
  unfolding countAlive_def livingPlayers_def
proof (induction ps)
  case Nil
  then show ?case by simp
next
  case (Cons p ps)
  then show ?case by (cases "role p") auto
qed

text \<open>
  The test "returns existing winner": a snapshot without any player whose winner is
  already SUBJECTS. Nobody is alive, and the evaluator answers SUBJECTS, not DRAW.
\<close>

theorem checkWin_stored_winner_counterexample:
  "length (livingPlayers (players (baseState [] (Some SUBJECTS)))) = 0 \<and>
   checkWin (baseState [] (Some SUBJECTS)) = Some SUBJECTS \<and>
   checkWin (baseState [] (Some SUBJECTS)) \<noteq> Some DRAW"
  by (simp add: checkWin_def baseState_def makeState_def livingPlayers_def)

text \<open>
  C6 (amended): for every snapshot whose winner is still null, the win evaluator returns
  DRAW when zero players are alive; SUBJECTS when at least one player is alive and zero
  traitors are alive; TRAITORS when at least one player is alive and the living-traitor
  count is greater than or equal to the living-subject count (parity is a traitor win);
  and null otherwise. For a snapshot whose winner is already set it returns that winner.
\<close>

theorem checkWin_by_living_composition:
  "(winner state = None \<longrightarrow>
      (length (livingPlayers (players state)) = 0 \<longrightarrow> checkWin state = Some DRAW) \<and>
      (0 < length (livingPlayers (players state)) \<and>
       countAlive (players state) (Some TRAITOR) = 0 \<longrightarrow> checkWin state = Some SUBJECTS) \<and>
      (0 < length (livingPlayers (players state)) \<and>
       0 < countAlive (players state) (Some TRAITOR) \<and>
       countAlive (players state) (Some SUBJECT) \<le> countAlive (players state) (Some TRAITOR)
         \<longrightarrow> checkWin state = Some TRAITORS) \<and>
      (0 < countAlive (players state) (Some TRAITOR) \<and>
       countAlive (players state) (Some TRAITOR) < countAlive (players state) (Some SUBJECT)
         \<longrightarrow> checkWin state = None)) \<and>
   (\<forall>w. winner state = Some w \<longrightarrow> checkWin state = Some w)"
  using countAlive_split [of "players state"]
  by (auto simp: checkWin_def Let_def)

text \<open>The cases of the win test suite, each obtained from the theorem.\<close>

theorem checkWin_by_living_composition_witness:
  "checkWin (baseState [] None) = Some DRAW \<and>
   checkWin (baseState [createPlayer ''s1'' SUBJECT True, createPlayer ''s2'' SUBJECT True,
                       createPlayer ''t1'' TRAITOR False] None) = Some SUBJECTS \<and>
   checkWin (baseState [createPlayer ''s1'' SUBJECT True, createPlayer ''t1'' TRAITOR True] None)
     = Some TRAITORS \<and>
   checkWin (baseState [createPlayer ''s1'' SUBJECT True, createPlayer ''s2'' SUBJECT True,
                       createPlayer ''t1'' TRAITOR True] None) = None \<and>
   checkWin (baseState [createPlayer ''s1'' SUBJECT True] (Some TRAITORS)) = Some TRAITORS"
proof -
  have a: "checkWin (baseState [] None) = Some DRAW"
    using checkWin_by_living_composition [of "baseState [] None"]
    by (simp add: baseState_def makeState_def livingPlayers_def)
  have b: "checkWin (baseState [createPlayer ''s1'' SUBJECT True, createPlayer ''s2'' SUBJECT True,
                       createPlayer ''t1'' TRAITOR False] None) = Some SUBJECTS"
    using checkWin_by_living_composition [of "baseState [createPlayer ''s1'' SUBJECT True,
            createPlayer ''s2'' SUBJECT True, createPlayer ''t1'' TRAITOR False] None"]
    by (simp add: baseState_def makeState_def livingPlayers_def countAlive_def createPlayer_def)
  have c: "checkWin (baseState [createPlayer ''s1'' SUBJECT True, createPlayer ''t1'' TRAITOR True]
                       None) = Some TRAITORS"
    using checkWin_by_living_composition [of "baseState [createPlayer ''s1'' SUBJECT True,
            createPlayer ''t1'' TRAITOR True] None"]
    by (simp add: baseState_def makeState_def livingPlayers_def countAlive_def createPlayer_def)
  have d: "checkWin (baseState [createPlayer ''s1'' SUBJECT True, createPlayer ''s2'' SUBJECT True,
                       createPlayer ''t1'' TRAITOR True] None) = None"
    using checkWin_by_living_composition [of "baseState [createPlayer ''s1'' SUBJECT True,
            createPlayer ''s2'' SUBJECT True, createPlayer ''t1'' TRAITOR True] None"]
    by (simp add: baseState_def makeState_def livingPlayers_def countAlive_def createPlayer_def)
  have e: "checkWin (baseState [createPlayer ''s1'' SUBJECT True] (Some TRAITORS)) = Some TRAITORS"
    using checkWin_by_living_composition [of "baseState [createPlayer ''s1'' SUBJECT True]
            (Some TRAITORS)"]
    by (simp add: baseState_def makeState_def)
  from a b c d e show ?thesis by simp
qed

section \<open>The chat router\<close>

text \<open>
  C8: for every snapshot and every sender, the chat router answers by phase. LOBBY: anyone
  may speak, channel LOBBY, audience the whole room. DAY_DISCUSSION and DAY_VERDICT: a
  living sender gets channel DAY with audience the whole room, a dead sender is rejected
  with the error that names dead players. TRIAL: the generic channel is rejected for every
  sender. NIGHT: a living traitor gets channel NIGHT_TRAITORS with audience traitors only,
  everyone else (dead, or living but not a traitor) is rejected. GAME_OVER: anyone may
  speak, channel GAME_OVER, audience the whole room.
\<close>

theorem resolveChatRoute_per_phase:
  "(phase game = LOBBY \<longrightarrow>
      resolveChatRoute game sender = Inr \<lparr>channel = ChLOBBY, audience = ROOM\<rparr>) \<and>
   (phase game = DAY_DISCUSSION \<or> phase game = DAY_VERDICT \<longrightarrow>
      (alive sender \<longrightarrow>
         resolveChatRoute game sender = Inr \<lparr>channel = ChDAY, audience = ROOM\<rparr>) \<and>
      (\<not> alive sender \<longrightarrow>
         resolveChatRoute game sender =
           Inl (GameRuleError ''INVALID_CHAT'' ''Dead players cannot chat during day''))) \<and>
   (phase game = TRIAL \<longrightarrow>
      resolveChatRoute game sender =
        Inl (GameRuleError ''INVALID_CHAT'' ''Use TRIAL_CHAT during trial'')) \<and>
   (phase game = NIGHT \<longrightarrow>
      (alive sender \<and> role sender = TRAITOR \<longrightarrow>
         resolveChatRoute game sender =
           Inr \<lparr>channel = ChNIGHT_TRAITORS, audience = TRAITORS_ONLY\<rparr>) \<and>
      (\<not> (alive sender \<and> role sender = TRAITOR) \<longrightarrow>
         resolveChatRoute game sender =
           Inl (GameRuleError ''INVALID_CHAT'' ''Only living traitors may chat at night''))) \<and>
   (phase game = GAME_OVER \<longrightarrow>
      resolveChatRoute game sender = Inr \<lparr>channel = ChGAME_OVER, audience = ROOM\<rparr>)"
  by (auto simp: resolveChatRoute_def)

text \<open>One sender per phase: the lobby, a dead player by day, the trial, a living subject
  and a living traitor by night, and the finished game.\<close>

theorem resolveChatRoute_per_phase_witness:
  "resolveChatRoute makeState (createPlayer ''p'' SUBJECT False)
     = Inr \<lparr>channel = ChLOBBY, audience = ROOM\<rparr> \<and>
   resolveChatRoute (makeState\<lparr>phase := DAY_DISCUSSION\<rparr>) (createPlayer ''dead'' SUBJECT False)
     = Inl (GameRuleError ''INVALID_CHAT'' ''Dead players cannot chat during day'') \<and>
   resolveChatRoute (makeState\<lparr>phase := DAY_VERDICT\<rparr>) (createPlayer ''alive'' SUBJECT True)
     = Inr \<lparr>channel = ChDAY, audience = ROOM\<rparr> \<and>
   resolveChatRoute (makeState\<lparr>phase := TRIAL\<rparr>) (createPlayer ''accused'' SUBJECT True)
     = Inl (GameRuleError ''INVALID_CHAT'' ''Use TRIAL_CHAT during trial'') \<and>
   resolveChatRoute (makeState\<lparr>phase := NIGHT\<rparr>) (createPlayer ''subject'' SUBJECT True)
     = Inl (GameRuleError ''INVALID_CHAT'' ''Only living traitors may chat at night'') \<and>
   resolveChatRoute (makeState\<lparr>phase := NIGHT\<rparr>) (createPlayer ''traitor'' TRAITOR True)
     = Inr \<lparr>channel = ChNIGHT_TRAITORS, audience = TRAITORS_ONLY\<rparr> \<and>
   resolveChatRoute (makeState\<lparr>phase := GAME_OVER\<rparr>) (createPlayer ''p'' SUBJECT False)
     = Inr \<lparr>channel = ChGAME_OVER, audience = ROOM\<rparr>"
proof -
  have a: "resolveChatRoute makeState (createPlayer ''p'' SUBJECT False)
             = Inr \<lparr>channel = ChLOBBY, audience = ROOM\<rparr>"
    using resolveChatRoute_per_phase [of makeState "createPlayer ''p'' SUBJECT False"]
    by (simp add: makeState_def)
  have b: "resolveChatRoute (makeState\<lparr>phase := DAY_DISCUSSION\<rparr>) (createPlayer ''dead'' SUBJECT False)
             = Inl (GameRuleError ''INVALID_CHAT'' ''Dead players cannot chat during day'')"
    using resolveChatRoute_per_phase [of "makeState\<lparr>phase := DAY_DISCUSSION\<rparr>"
            "createPlayer ''dead'' SUBJECT False"]
    by (simp add: createPlayer_def)
  have c: "resolveChatRoute (makeState\<lparr>phase := DAY_VERDICT\<rparr>) (createPlayer ''alive'' SUBJECT True)
             = Inr \<lparr>channel = ChDAY, audience = ROOM\<rparr>"
    using resolveChatRoute_per_phase [of "makeState\<lparr>phase := DAY_VERDICT\<rparr>"
            "createPlayer ''alive'' SUBJECT True"]
    by (simp add: createPlayer_def)
  have d: "resolveChatRoute (makeState\<lparr>phase := TRIAL\<rparr>) (createPlayer ''accused'' SUBJECT True)
             = Inl (GameRuleError ''INVALID_CHAT'' ''Use TRIAL_CHAT during trial'')"
    using resolveChatRoute_per_phase [of "makeState\<lparr>phase := TRIAL\<rparr>"
            "createPlayer ''accused'' SUBJECT True"]
    by simp
  have e: "resolveChatRoute (makeState\<lparr>phase := NIGHT\<rparr>) (createPlayer ''subject'' SUBJECT True)
             = Inl (GameRuleError ''INVALID_CHAT'' ''Only living traitors may chat at night'')"
    using resolveChatRoute_per_phase [of "makeState\<lparr>phase := NIGHT\<rparr>"
            "createPlayer ''subject'' SUBJECT True"]
    by (simp add: createPlayer_def)
  have f: "resolveChatRoute (makeState\<lparr>phase := NIGHT\<rparr>) (createPlayer ''traitor'' TRAITOR True)
             = Inr \<lparr>channel = ChNIGHT_TRAITORS, audience = TRAITORS_ONLY\<rparr>"
    using resolveChatRoute_per_phase [of "makeState\<lparr>phase := NIGHT\<rparr>"
            "createPlayer ''traitor'' TRAITOR True"]
    by (simp add: createPlayer_def)
  have g: "resolveChatRoute (makeState\<lparr>phase := GAME_OVER\<rparr>) (createPlayer ''p'' SUBJECT False)
             = Inr \<lparr>channel = ChGAME_OVER, audience = ROOM\<rparr>"
    using resolveChatRoute_per_phase [of "makeState\<lparr>phase := GAME_OVER\<rparr>"
            "createPlayer ''p'' SUBJECT False"]
    by simp
  from a b c d e f g show ?thesis by simp
qed

section \<open>The view redactor\<close>

lemma find_viewer_same:
  "list_all2 (\<lambda>p p'. p' = p\<lparr>role := role p'\<rparr> \<and> (playerId p = v \<longrightarrow> role p' = role p)) ps ps'
   \<Longrightarrow> find (\<lambda>p. playerId p = v) ps' = find (\<lambda>p. playerId p = v) ps"
proof (induction ps ps' rule: list_all2_induct)
  case Nil
  then show ?case by simp
next
  case (Cons p ps p' ps')
  from Cons.hyps(1) have pid: "playerId p' = playerId p"
    by (cases p, cases p') auto
  show ?case
  proof (cases "playerId p = v")
    case True
    with Cons.hyps(1) have "p' = p" by (cases p, cases p') auto
    with True show ?thesis by simp
  next
    case False
    with pid Cons.IH show ?thesis by simp
  qed
qed

lemma publicView_same:
  "list_all2 (\<lambda>p p'. p' = p\<lparr>role := role p'\<rparr> \<and> (playerId p = v \<longrightarrow> role p' = role p)) ps ps'
   \<Longrightarrow> map publicView ps' = map publicView ps"
proof (induction ps ps' rule: list_all2_induct)
  case Nil
  then show ?case by simp
next
  case (Cons p ps p' ps')
  from Cons.hyps(1) have "publicView p' = publicView p"
    by (cases p, cases p') (auto simp: publicView_def)
  with Cons.IH show ?case by simp
qed

text \<open>
  C9: for every snapshot and every viewer seated in it, the redacted view carries the
  room id, phase, day and night counters, accused id, last-killed id, phase deadline and
  winner of the snapshot, a public list with exactly the playerId, name, alive, connected
  and isHost of every player (the entry type has no role field), and a self view whose
  role is the viewer's own role. Consequently the view is the same for any second
  snapshot that differs from the first only in the roles of players other than the viewer.
\<close>

theorem buildGameView_redacts_other_roles:
  assumes seated: "find (\<lambda>p. playerId p = viewerId) (players game) = Some viewer"
    and differ: "differOnlyInOtherRoles viewerId game game'"
  shows "(\<exists>view. buildGameView game viewerId = Inr view \<and>
            gvGameId view = gameId game \<and> gvPhase view = phase game \<and>
            gvDayNumber view = dayNumber game \<and> gvNightNumber view = nightNumber game \<and>
            gvAccusedId view = accusedId game \<and> gvLastKilledId view = lastKilledId game \<and>
            gvPhaseEndsAt view = phaseEndsAt game \<and> gvWinner view = winner game \<and>
            gvPlayers view =
              map (\<lambda>p. \<lparr>pvPlayerId = playerId p, pvName = name p, pvAlive = alive p,
                         pvConnected = connected p, pvIsHost = isHost p\<rparr>) (players game) \<and>
            svRole (gvYou view) = role viewer \<and> pvPlayerId (gvYou view) = viewerId) \<and>
         buildGameView game' viewerId = buildGameView game viewerId"
proof
  from seated have "playerId viewer = viewerId"
    by (auto simp: find_Some_iff)
  with seated show "\<exists>view. buildGameView game viewerId = Inr view \<and>
            gvGameId view = gameId game \<and> gvPhase view = phase game \<and>
            gvDayNumber view = dayNumber game \<and> gvNightNumber view = nightNumber game \<and>
            gvAccusedId view = accusedId game \<and> gvLastKilledId view = lastKilledId game \<and>
            gvPhaseEndsAt view = phaseEndsAt game \<and> gvWinner view = winner game \<and>
            gvPlayers view =
              map (\<lambda>p. \<lparr>pvPlayerId = playerId p, pvName = name p, pvAlive = alive p,
                         pvConnected = connected p, pvIsHost = isHost p\<rparr>) (players game) \<and>
            svRole (gvYou view) = role viewer \<and> pvPlayerId (gvYou view) = viewerId"
    by (simp add: buildGameView_def Let_def publicView_def)
next
  from differ have rest: "game' = game\<lparr>players := players game'\<rparr>"
    and rel: "list_all2 (\<lambda>p p'. p' = p\<lparr>role := role p'\<rparr> \<and>
                 (playerId p = viewerId \<longrightarrow> role p' = role p)) (players game) (players game')"
    by (simp_all add: differOnlyInOtherRoles_def)
  have f: "find (\<lambda>p. playerId p = viewerId) (players game')
             = find (\<lambda>p. playerId p = viewerId) (players game)"
    using rel by (rule find_viewer_same)
  have m: "map publicView (players game') = map publicView (players game)"
    using rel by (rule publicView_same)
  have fields: "gameId game' = gameId game" "phase game' = phase game"
    "dayNumber game' = dayNumber game" "nightNumber game' = nightNumber game"
    "accusedId game' = accusedId game" "lastKilledId game' = lastKilledId game"
    "phaseEndsAt game' = phaseEndsAt game" "winner game' = winner game"
    by (subst rest, simp)+
  show "buildGameView game' viewerId = buildGameView game viewerId"
    unfolding buildGameView_def f m fields ..
qed

text \<open>Viewer p1 in a night of three players; in the second snapshot p2 and p3 have
  swapped roles, and p1 receives the same view.\<close>

theorem buildGameView_redacts_other_roles_witness:
  "find (\<lambda>p. playerId p = ''p1'') (players viewGame) = Some (createPlayer ''p1'' SUBJECT True) \<and>
   differOnlyInOtherRoles ''p1'' viewGame viewGameSwapped \<and>
   players viewGameSwapped \<noteq> players viewGame \<and>
   buildGameView viewGameSwapped ''p1'' = buildGameView viewGame ''p1''"
proof -
  have h1: "find (\<lambda>p. playerId p = ''p1'') (players viewGame)
              = Some (createPlayer ''p1'' SUBJECT True)"
    by (simp add: viewGame_def makeState_def createPlayer_def)
  have h2: "differOnlyInOtherRoles ''p1'' viewGame viewGameSwapped"
    by (simp add: differOnlyInOtherRoles_def viewGame_def viewGameSwapped_def makeState_def
        createPlayer_def)
  have h3: "players viewGameSwapped \<noteq> players viewGame"
    by (simp add: viewGame_def viewGameSwapped_def makeState_def createPlayer_def)
  from buildGameView_redacts_other_roles [OF h1 h2] h1 h2 h3 show ?thesis by blast
qed

section \<open>Starting the night from the lobby\<close>

text \<open>From the lobby \<open>startNight\<close> always succeeds and never looks at the roles.\<close>

lemma startNight_from_lobby:
  "phase g = LOBBY \<Longrightarrow>
   \<exists>g'. startNight g now = Inr g' \<and> phase g' = NIGHT \<and> rolesAssigned g' = rolesAssigned g"
  by (simp add: startNight_def ensurePhase_def Let_def)

text \<open>
  C2: a snapshot in phase LOBBY whose roles are not assigned must be refused by the
  start-night transition. The freshly created lobby of the test "prevents night from
  starting before roles are assigned" is such a snapshot; \<open>startNight\<close> of
  src/engine/transitions.ts accepts it and returns a snapshot in phase NIGHT whose roles
  are still unassigned. The documented copy of the file raises ROLES_NOT_ASSIGNED.
\<close>

theorem startNight_accepts_lobby_without_roles:
  "phase (createInitialGame ''g'' lobbyHost None) = LOBBY \<and>
   rolesAssigned (createInitialGame ''g'' lobbyHost None) = False \<and>
   startNight (createInitialGame ''g'' lobbyHost None) 0 =
     Inr ((createInitialGame ''g'' lobbyHost None)\<lparr>phase := NIGHT, phaseEndsAt := 90000\<rparr>)"
  by (simp add: startNight_def createInitialGame_def ensurePhase_def lobbyHost_def toPlayer_def
      livingPlayers_def fromEntries_def mergeOptions_def DEFAULT_GAME_OPTIONS_def orElse_def)

lemma startNightGuarded_rejects_lobby_without_roles:
  "startNightGuarded (createInitialGame ''g'' lobbyHost None) 0 =
     Inl (GameRuleError ''ROLES_NOT_ASSIGNED'' ''Cannot start night before assigning roles'')"
  by (simp add: startNightGuarded_def createInitialGame_def ensurePhase_def)

section \<open>Recording a night vote\<close>

text \<open>
  In phase NIGHT the vote is accepted exactly when the voter is a living traitor and the
  target is living; the night-vote map is only written, never consulted.
\<close>

lemma recordNightVote_succeeds_iff:
  assumes "phase g = NIGHT"
  shows "(\<exists>g'. recordNightVote g voterId targetId = Inr g') \<longleftrightarrow>
           (\<exists>p. getPlayer (players g) voterId = Some p \<and> alive p \<and> role p = TRAITOR) \<and>
           seatedAlive (players g) targetId"
  using assms
  by (auto simp: recordNightVote_def ensurePhase_def assertPlayer_def seatedAlive_def
      split: option.splits)

lemma recordNightVote_result:
  assumes "recordNightVote g voterId targetId = Inr g'"
  shows "g' = g\<lparr>nightVotes := recordSet (nightVotes g) voterId (Some targetId)\<rparr>"
  using assms
  by (auto simp: recordNightVote_def ensurePhase_def assertPlayer_def
      split: option.splits if_splits dest: getPlayer_playerId)

text \<open>
  C7: in phase NIGHT a night vote must be refused unless the voter is a living traitor
  with an entry in the night-vote map and the target is living. In the snapshot of the
  test "rejects night votes from players not scheduled to vote" the night-vote map is
  empty; \<open>recordNightVote\<close> of src/engine/transitions.ts nevertheless records the vote
  of traitor t1. The documented copy of the file raises NOT_A_NIGHT_VOTER.
\<close>

theorem recordNightVote_accepts_unscheduled_traitor:
  "phase badState = NIGHT \<and> hasOwnProperty (nightVotes badState) ''t1'' = False \<and>
   recordNightVote badState ''t1'' ''s1'' =
     Inr (badState\<lparr>nightVotes := [(''t1'', Some ''s1'')]\<rparr>)"
  by (simp add: recordNightVote_def badState_def makeState_def createPlayer_def ensurePhase_def
      assertPlayer_def getPlayer_def hasOwnProperty_def)

lemma recordNightVoteGuarded_rejects_unscheduled_traitor:
  "recordNightVoteGuarded badState ''t1'' ''s1'' =
     Inl (GameRuleError ''NOT_A_NIGHT_VOTER'' ''Player is not scheduled to vote this night'')"
  by (simp add: recordNightVoteGuarded_def badState_def makeState_def createPlayer_def
      ensurePhase_def assertPlayer_def getPlayer_def hasOwnProperty_def)

section \<open>Resolving the verdict\<close>

lemma countVerdicts_acc:
  "foldl (\<lambda>(hangVotes, spareVotes) (voterId, choice).
              case choice of None \<Rightarrow> (hangVotes, spareVotes)
              | Some c \<Rightarrow>
                  if voterId \<notin> set ids then (hangVotes, spareVotes)
                  else if c = HANG then (hangVotes + 1, spareVotes)
                  else (hangVotes, spareVotes + 1))
           (h0, s0) votes
   = (h0 + length (filter (\<lambda>(v, c). c = Some HANG \<and> v \<in> set ids) votes),
      s0 + length (filter (\<lambda>(v, c). c = Some SPARE \<and> v \<in> set ids) votes))"
proof (induction votes arbitrary: h0 s0)
  case Nil
  then show ?case by simp
next
  case (Cons b votes)
  obtain v c where b: "b = (v, c)" by (cases b)
  show ?case
  proof (cases c)
    case None
    with b Cons.IH show ?thesis by simp
  next
    case (Some ch)
    with b Cons.IH show ?thesis by (cases ch) auto
  qed
qed

lemma countVerdicts_eq:
  "countVerdicts (map playerId (livingPlayers (players g))) (verdictVotes g)
     = (castLivingBallots g HANG, castLivingBallots g SPARE)"
  unfolding countVerdicts_def castLivingBallots_def countVerdicts_acc
  by simp

lemma verdictKill_eq:
  "verdictKill ps (Some a) h s =
     (if s < h \<and> seatedAlive ps a then (markDead a ps, Some a) else (ps, None))"
  by (auto simp: verdictKill_def seatedAlive_def split: option.splits dest: getPlayer_playerId)

lemma getPlayer_markDead_same:
  "getPlayer (markDead a ps) a = map_option (\<lambda>p. p\<lparr>alive := False\<rparr>) (getPlayer ps a)"
  by (induction ps) (auto simp: getPlayer_def)

lemma getPlayer_markDead_other:
  "b \<noteq> a \<Longrightarrow> getPlayer (markDead a ps) b = getPlayer ps b"
  by (induction ps) (auto simp: getPlayer_def)

lemma seatedAlive_markDead: "\<not> seatedAlive (markDead a ps) a"
  by (simp add: seatedAlive_def getPlayer_markDead_same split: option.splits)

text \<open>
  Killing through \<open>markDead\<close> is the single-seat write \<open>withSeatKilled\<close>.
\<close>

lemma firstSeat_Cons:
  "firstSeat (p # ps) pid = (if playerId p = pid then 0 else Suc (firstSeat ps pid))"
  by (simp add: firstSeat_def)

lemma markDead_withSeatKilled:
  "getPlayer ps pid = Some p \<Longrightarrow> markDead pid ps = withSeatKilled ps pid"
proof (induction ps)
  case Nil
  then show ?case by (simp add: getPlayer_def)
next
  case (Cons q ps)
  show ?case
  proof (cases "playerId q = pid")
    case True
    then show ?thesis by (simp add: withSeatKilled_def firstSeat_Cons)
  next
    case False
    with Cons.prems have "getPlayer ps pid = Some p" by (simp add: getPlayer_def)
    from Cons.IH [OF this] False show ?thesis
      by (simp add: withSeatKilled_def firstSeat_Cons)
  qed
qed

lemma markDead_seatedAlive: "seatedAlive ps pid \<Longrightarrow> markDead pid ps = withSeatKilled ps pid"
  by (auto simp: seatedAlive_def split: option.splits intro: markDead_withSeatKilled)

text \<open>
  The verdict phase is entered through \<open>startDayVerdict\<close> only, and the snapshot it
  returns carries an accusedId that is neither null nor empty.
\<close>

lemma startDayVerdict_accused:
  "startDayVerdict g now = Inr g' \<Longrightarrow>
     phase g' = DAY_VERDICT \<and> (\<exists>a. accusedId g' = Some a \<and> a \<noteq> [])"
  by (cases "accusedId g")
     (auto simp: startDayVerdict_def truthy_def Let_def split: option.splits if_splits)



text \<open>
  C10: for every snapshot in phase DAY_VERDICT with a non-null accusedId (a player
  identifier, hence a non-empty string), when the verdict spares the accused (HANG does
  not strictly exceed SPARE, or the accused is not alive), resolveDayVerdict leaves every
  player's alive flag unchanged (the player list is the same) and leaves lastKilledId at
  its prior value, while accusedId and the verdict ballots are cleared.
\<close>

theorem resolveDayVerdict_spare_frame:
  assumes ph: "phase g = DAY_VERDICT" and acc: "accusedId g = Some a" and ne: "a \<noteq> []"
    and spared: "\<not> (castLivingBallots g SPARE < castLivingBallots g HANG \<and> seatedAlive (players g) a)"
  shows "\<exists>g'. resolveDayVerdict g now = Inr g' \<and>
           map alive (players g') = map alive (players g) \<and> players g' = players g \<and>
           lastKilledId g' = lastKilledId g \<and> accusedId g' = None \<and> verdictVotes g' = []"
proof -
  from acc ne have t: "truthy (accusedId g)" by (simp add: truthy_def)
  from spared acc have vk: "verdictKill (players g) (accusedId g)
      (castLivingBallots g HANG) (castLivingBallots g SPARE) = (players g, None)"
    by (simp add: verdictKill_eq)
  from resolveDayVerdict_result [OF ph t countVerdicts_eq vk, of now] show ?thesis
    by auto
qed

text \<open>A 1-1 tie with a stale HANG of a dead voter and an earlier victim on record.\<close>

theorem resolveDayVerdict_spare_frame_witness:
  "phase staleVerdict = DAY_VERDICT \<and> accusedId staleVerdict = Some ''p3'' \<and>
   castLivingBallots staleVerdict HANG = 1 \<and> castLivingBallots staleVerdict SPARE = 1 \<and>
   (\<exists>g'. resolveDayVerdict staleVerdict 0 = Inr g' \<and>
         map alive (players g') = [True, True, True, False] \<and>
         lastKilledId g' = Some ''p4'' \<and> accusedId g' = None \<and> verdictVotes g' = [])"
proof -
  have s1: "phase staleVerdict = DAY_VERDICT" "accusedId staleVerdict = Some ''p3''" "''p3'' \<noteq> []"
    by (simp_all add: staleVerdict_def fixture_defs)
  have s2: "castLivingBallots staleVerdict HANG = 1" "castLivingBallots staleVerdict SPARE = 1"
    by (simp_all add: staleVerdict_def fixture_defs castLivingBallots_def livingPlayers_def)
  have s3: "\<not> (castLivingBallots staleVerdict SPARE < castLivingBallots staleVerdict HANG \<and>
               seatedAlive (players staleVerdict) ''p3'')"
    using s2 by simp
  have s4: "map alive (players staleVerdict) = [True, True, True, False]"
    "lastKilledId staleVerdict = Some ''p4''"
    by (simp_all add: staleVerdict_def fixture_defs)
  from resolveDayVerdict_spare_frame [OF s1 s3, of 0] s1 s2 s4 show ?thesis by auto
qed

section \<open>The vote tally\<close>

lemma map_of_tallySet: "map_of (tallySet m k v) = (map_of m)(k \<mapsto> v)"
  by (induction m) (auto simp: fun_eq_iff)

lemma keys_tallySet:
  "map fst (tallySet m k v) = (if k \<in> fst ` set m then map fst m else map fst m @ [k])"
proof (induction m)
  case Nil
  then show ?case by simp
next
  case (Cons e m)
  obtain k' v' where e: "e = (k', v')" by (cases e)
  show ?case
  proof (cases "k' = k")
    case True
    with e show ?thesis by simp
  next
    case False
    with e Cons show ?thesis by (cases "k \<in> fst ` set m") simp_all
  qed
qed

lemma distinct_tallySet: "distinct (map fst m) \<Longrightarrow> distinct (map fst (tallySet m k v))"
  by (simp add: keys_tallySet)

lemma tallyStep_simps:
  "tallyStep m None = m"
  "tallyStep m (Some []) = m"
  "t \<noteq> [] \<Longrightarrow> tallyStep m (Some t) = tallySet m t (tallyGet m t + 1)"
  by (simp_all add: tallyStep_def truthy_def)

lemma tally_foldl_spec:
  "distinct (map fst (foldl tallyStep [] vs)) \<and>
   (\<forall>t. map_of (foldl tallyStep [] vs) t =
          (if t \<noteq> [] \<and> Some t \<in> set vs then Some (length (filter (\<lambda>v. v = Some t) vs)) else None))"
proof (induction vs rule: rev_induct)
  case Nil
  then show ?case by simp
next
  case (snoc v vs)
  let ?m = "foldl tallyStep [] vs"
  from snoc have d: "distinct (map fst ?m)"
    and s: "\<And>t. map_of ?m t =
          (if t \<noteq> [] \<and> Some t \<in> set vs then Some (length (filter (\<lambda>v. v = Some t) vs)) else None)"
    by simp_all
  show ?case
  proof (cases v)
    case None
    with d s show ?thesis by (simp add: tallyStep_simps)
  next
    case (Some u)
    show ?thesis
    proof (cases "u = []")
      case True
      with Some d s show ?thesis by (simp add: tallyStep_simps)
    next
      case False
      have g: "tallyGet ?m u = length (filter (\<lambda>v. v = Some u) vs)"
        using s [of u] False
        by (auto simp: tallyGet_def filter_empty_conv)
      from Some False have step: "foldl tallyStep [] (vs @ [v]) = tallySet ?m u (tallyGet ?m u + 1)"
        by (simp add: tallyStep_simps)
      show ?thesis
        unfolding step using d s g False Some
        by (auto simp: distinct_tallySet map_of_tallySet)
    qed
  qed
qed

lemma tallyVotes_distinct: "distinct (map fst (tallyVotes votes))"
  using tally_foldl_spec [of "map snd votes"] by (simp add: tallyVotes_def)

lemma tallyVotes_map_of:
  "map_of (tallyVotes votes) t =
     (if t \<noteq> [] \<and> Some t \<in> snd ` set votes then Some (votesFor votes t) else None)"
  using tally_foldl_spec [of "map snd votes"] by (simp add: tallyVotes_def votesFor_def)



lemma fold_max_ge_start: "(a::nat) \<le> fold max xs a"
  by (induction xs arbitrary: a) (auto intro: order_trans [OF max.cobounded2])

lemma fold_max_ge_elem: "x \<in> set xs \<Longrightarrow> (x::nat) \<le> fold max xs a"
proof (induction xs arbitrary: a)
  case Nil
  then show ?case by simp
next
  case (Cons y ys)
  show ?case
  proof (cases "x = y")
    case True
    have "y \<le> max y a" by simp
    also have "\<dots> \<le> fold max ys (max y a)" by (rule fold_max_ge_start)
    finally show ?thesis using True by simp
  next
    case False
    with Cons show ?thesis by simp
  qed
qed

lemma fold_max_in: "fold max xs (a::nat) \<in> insert a (set xs)"
proof (induction xs arbitrary: a)
  case Nil
  then show ?case by simp
next
  case (Cons y ys)
  have "fold max ys (max y a) \<in> insert (max y a) (set ys)" by (rule Cons.IH)
  moreover have "max y a = y \<or> max y a = a" by (simp add: max_def)
  ultimately show ?case by auto
qed

lemma isCastTarget_iff: "isCastTarget votes t \<longleftrightarrow> t \<noteq> [] \<and> Some t \<in> snd ` set votes"
  by (simp add: isCastTarget_def)

lemma isTopTarget_iff:
  "isTopTarget votes t \<longleftrightarrow>
     isCastTarget votes t \<and> (\<forall>u. isCastTarget votes u \<longrightarrow> votesFor votes u \<le> votesFor votes t)"
proof -
  have "(\<forall>v \<in> snd ` set votes. case v of None \<Rightarrow> True
            | Some u \<Rightarrow> u = [] \<or> votesFor votes u \<le> votesFor votes t)
        \<longleftrightarrow> (\<forall>u. isCastTarget votes u \<longrightarrow> votesFor votes u \<le> votesFor votes t)"
    (is "?L \<longleftrightarrow> ?R")
  proof
    assume l: ?L
    show ?R
    proof (intro allI impI)
      fix u assume "isCastTarget votes u"
      then have "u \<noteq> []" "Some u \<in> snd ` set votes" by (simp_all add: isCastTarget_iff)
      with l have "case Some u of None \<Rightarrow> True
            | Some u \<Rightarrow> u = [] \<or> votesFor votes u \<le> votesFor votes t" by blast
      with \<open>u \<noteq> []\<close> show "votesFor votes u \<le> votesFor votes t" by simp
    qed
  next
    assume r: ?R
    show ?L
    proof
      fix v assume v: "v \<in> snd ` set votes"
      show "case v of None \<Rightarrow> True | Some u \<Rightarrow> u = [] \<or> votesFor votes u \<le> votesFor votes t"
      proof (cases v)
        case None
        then show ?thesis by simp
      next
        case (Some u)
        with v r show ?thesis by (cases "u = []") (simp_all add: isCastTarget_iff)
      qed
    qed
  qed
  then show ?thesis
    by (simp add: isTopTarget_def list_all_iff)
qed

lemma tally_entry_iff:
  "(t, c) \<in> set (tallyVotes votes) \<longleftrightarrow> isCastTarget votes t \<and> c = votesFor votes t"
proof -
  have "(t, c) \<in> set (tallyVotes votes) \<longleftrightarrow> map_of (tallyVotes votes) t = Some c"
    using tallyVotes_distinct [of votes] by simp
  then show ?thesis
    by (auto simp: tallyVotes_map_of isCastTarget_iff)
qed

lemma votesFor_pos: "isCastTarget votes t \<Longrightarrow> 0 < votesFor votes t"
  by (force simp: isCastTarget_def votesFor_def filter_empty_conv)

lemma leadersOf_mem:
  "t \<in> set (leadersOf m) \<longleftrightarrow> (t, fold max (map snd m) 0) \<in> set m"
  by (force simp: leadersOf_def Let_def)

lemma leadersOf_tally_set:
  "set (leadersOf (tallyVotes votes)) = {t. isTopTarget votes t}"
proof -
  let ?m = "tallyVotes votes"
  let ?top = "fold max (map snd ?m) 0"
  have ub: "\<And>u. isCastTarget votes u \<Longrightarrow> votesFor votes u \<le> ?top"
  proof -
    fix u assume "isCastTarget votes u"
    then have "(u, votesFor votes u) \<in> set ?m" by (simp add: tally_entry_iff)
    then have "votesFor votes u \<in> set (map snd ?m)" by force
    then show "votesFor votes u \<le> ?top" by (rule fold_max_ge_elem)
  qed
  have mem: "\<And>t. t \<in> set (leadersOf ?m) \<longleftrightarrow> isCastTarget votes t \<and> votesFor votes t = ?top"
    by (auto simp: leadersOf_mem tally_entry_iff)
  show ?thesis
  proof (rule set_eqI, simp only: mem mem_Collect_eq isTopTarget_iff, rule iffI)
    fix t
    assume "isCastTarget votes t \<and> votesFor votes t = ?top"
    with ub show "isCastTarget votes t \<and> (\<forall>u. isCastTarget votes u \<longrightarrow> votesFor votes u \<le> votesFor votes t)"
      by simp
  next
    fix t
    assume a: "isCastTarget votes t \<and> (\<forall>u. isCastTarget votes u \<longrightarrow> votesFor votes u \<le> votesFor votes t)"
    then have pos: "0 < votesFor votes t" by (simp add: votesFor_pos)
    from a ub have le: "votesFor votes t \<le> ?top" by simp
    with pos have "?top \<noteq> 0" by simp
    with fold_max_in [of "map snd ?m" 0] have "?top \<in> set (map snd ?m)" by simp
    then obtain u where "(u, ?top) \<in> set ?m" by force
    then have "isCastTarget votes u" "?top = votesFor votes u" by (simp_all add: tally_entry_iff)
    with a have "?top \<le> votesFor votes t" by simp
    with le a show "isCastTarget votes t \<and> votesFor votes t = ?top" by simp
  qed
qed

lemma leadersOf_tally_distinct: "distinct (leadersOf (tallyVotes votes))"
  using tallyVotes_distinct [of votes]
  by (simp add: leadersOf_def Let_def distinct_map_filter)

lemma castNightVotes_nonempty:
  "castNightVotes g \<noteq> [] \<longleftrightarrow> (\<exists>t. isCastTarget (nightVotes g) t)"
  by (force simp: castNightVotes_def filter_empty_conv truthy_def isCastTarget_def split: option.splits)

lemma tallyVotes_nonempty:
  "isCastTarget votes t \<Longrightarrow> tallyVotes votes \<noteq> []"
  using tally_entry_iff [of t "votesFor votes t" votes] by auto

lemma leaders_nonempty:
  assumes "isCastTarget votes t"
  shows "leadersOf (tallyVotes votes) \<noteq> []"
proof -
  let ?m = "tallyVotes votes"
  let ?top = "fold max (map snd ?m) 0"
  from assms have "(t, votesFor votes t) \<in> set ?m" by (simp add: tally_entry_iff)
  then have "votesFor votes t \<in> set (map snd ?m)" by force
  then have "votesFor votes t \<le> ?top" by (rule fold_max_ge_elem)
  with votesFor_pos [OF assms] have "?top \<noteq> 0" by simp
  with fold_max_in [of "map snd ?m" 0] have "?top \<in> set (map snd ?m)" by simp
  then obtain u where "(u, ?top) \<in> set ?m" by force
  then have "u \<in> set (leadersOf ?m)" by (simp add: leadersOf_mem)
  then show ?thesis by auto
qed

lemma singleton_list: "distinct xs \<Longrightarrow> set xs = {t} \<Longrightarrow> xs = [t]"
  by (cases xs) (auto simp: Diff_insert_absorb dest: subset_singletonD)

section \<open>Nominations\<close>






section \<open>Resolving the night\<close>

lemma nightKill_selected:
  assumes "votes \<noteq> []" and "chooseVictim votes random = Inr sel"
  shows "nightKill ps votes random =
           Inr (case sel of None \<Rightarrow> (ps, None)
                | Some t \<Rightarrow> if seatedAlive ps t then (markDead t ps, Some t) else (ps, None))"
  using assms
  by (auto simp: nightKill_def seatedAlive_def split: option.splits dest: getPlayer_playerId)

lemma resolveNight_result:
  assumes ph: "phase g = NIGHT"
    and nk: "nightKill (players g) (tallyVotes (nightVotes g)) random = Inr (ps1, k)"
  shows "\<exists>g'. resolveNight g now random = Inr g' \<and> players g' = ps1 \<and> lastKilledId g' = k"
proof (cases "checkWin (g\<lparr>players := ps1, lastKilledId := k, nightVotes := [], phaseEndsAt := now\<rparr>)")
  case None
  with ph nk show ?thesis by (simp add: resolveNight_def ensurePhase_def Let_def)
next
  case (Some w)
  with ph nk show ?thesis by (simp add: resolveNight_def ensurePhase_def Let_def)
qed

subsection \<open>The index drawn by the random source\<close>

lemma bitLength_0 [simp]: "bitLength 0 = 0"
  by (simp add: bitLength.simps)

lemma bitLength_pos: "0 < n \<Longrightarrow> bitLength n = Suc (bitLength (n div 2))"
  by (subst bitLength.simps) simp

lemma pow_bitLength_le: "0 < k \<Longrightarrow> 2 ^ bitLength k \<le> 2 * k"
proof (induction k rule: bitLength.induct)
  case (1 n)
  show ?case
  proof (cases "n div 2 = 0")
    case True
    with 1(2) have "n = 1" by (simp add: div_eq_0_iff) 
    then show ?thesis by (simp add: bitLength_pos)
  next
    case False
    with 1 have "2 ^ bitLength (n div 2) \<le> 2 * (n div 2)" by simp
    also have "\<dots> \<le> n" by simp
    finally show ?thesis using 1(2) by (simp add: bitLength_pos)
  qed
qed

lemma pow_bitLength_pred:
  assumes "0 < n"
  shows "(2::nat) ^ bitLength (n - 1) < 2 * n"
proof (cases "n = 1")
  case True
  then show ?thesis by simp
next
  case False
  with assms have "0 < n - 1" by simp
  from pow_bitLength_le [OF this] have "2 ^ bitLength (n - 1) \<le> 2 * (n - 1)" .
  also have "\<dots> < 2 * n" using assms by simp
  finally show ?thesis .
qed

lemma floorOfProduct_in_range:
  assumes r0: "0 \<le> r" and r1: "r \<le> 1 - 1 / 2 ^ 53" and n: "0 < n"
  shows "0 \<le> floorOfProduct r n \<and> floorOfProduct r n < int n"
proof -
  let ?p = "r * of_nat n"
  have p0: "0 \<le> ?p" using r0 by simp
  then have f0: "0 \<le> \<lfloor>?p\<rfloor>" by simp
  have "?p \<le> (1 - 1 / 2 ^ 53) * of_nat n"
    using r1 by (intro mult_right_mono) simp_all
  then have ple: "?p \<le> of_nat n - of_nat n / 2 ^ 53" by (simp add: algebra_simps)
  have npos: "(0::rat) < of_nat n / 2 ^ 53" using n by simp
  with ple have plt: "?p < of_int (int n)" by simp
  then have fl: "\<lfloor>?p\<rfloor> < int n" by (simp only: floor_less_iff)
  show ?thesis
  proof (cases "\<lfloor>?p\<rfloor> + 1 = int n")
    case True
    then have nm: "nat (\<lfloor>?p\<rfloor> + 1) - 1 = n - 1" by simp
    have "(2::nat) ^ bitLength (n - 1) < 2 * n" using n by (rule pow_bitLength_pred)
    then have "(of_nat (2 ^ bitLength (n - 1)) :: rat) < of_nat (2 * n)" by (simp only: of_nat_less_iff)
    then have "(2::rat) ^ bitLength (n - 1) < 2 * of_nat n" by simp
    then have "(2::rat) ^ bitLength (n - 1) / 2 ^ 54 < of_nat n / 2 ^ 53"
      by (simp add: field_simps)
    with ple have "?p < of_nat n - 2 ^ bitLength (n - 1) / 2 ^ 54" by simp
    with True nm have "\<not> (of_int (\<lfloor>?p\<rfloor> + 1) - 2 ^ bitLength (nat (\<lfloor>?p\<rfloor> + 1) - 1) / 2 ^ 54 \<le> ?p)"
      by simp
    then have "floorOfProduct r n = \<lfloor>?p\<rfloor>" by (simp add: floorOfProduct_def Let_def)
    with f0 fl show ?thesis by simp
  next
    case False
    with fl have "\<lfloor>?p\<rfloor> + 1 < int n" by simp
    with f0 fl show ?thesis by (auto simp: floorOfProduct_def Let_def)
  qed
qed

lemma floorOfProduct_third:
  "floorOfProduct double_0_3333333333333333 3 = 1 \<and> \<lfloor>double_0_3333333333333333 * 3\<rfloor> = 0"
proof -
  have p: "double_0_3333333333333333 * 3 = 18014398509481983 / 18014398509481984"
    by (simp add: double_0_3333333333333333_def)
  have f: "\<lfloor>(18014398509481983::rat) / 18014398509481984\<rfloor> = 0"
    by (simp add: floor_eq_iff)
  show ?thesis
    by (simp add: floorOfProduct_def Let_def p f)
qed

lemma floorOfProduct_0_9: "floorOfProduct double_0_9 2 = 1"
proof -
  have p: "double_0_9 * 2 = 8106479329266893 / 4503599627370496"
    by (simp add: double_0_9_def)
  have f: "\<lfloor>(8106479329266893::rat) / 4503599627370496\<rfloor> = 1"
    by (simp add: floor_eq_iff)
  have b: "bitLength (Suc 0) = 1" by (simp add: bitLength_pos)
  show ?thesis
    by (simp add: floorOfProduct_def Let_def p f b)
qed

lemma floorOfProduct_zero: "0 < n \<Longrightarrow> floorOfProduct 0 n = 0"
  by (simp add: floorOfProduct_def Let_def)

subsection \<open>The tied targets\<close>

text \<open>
  The leaders the code reads off the tally are the top targets of the ballots, in the
  order of their first vote, and the victim it selects is the one the specification
  describes.
\<close>

lemma tally_keys_foldl:
  "map fst (foldl tallyStep [] vs) = rev (remdups (rev (map the (filter truthy vs))))"
proof (induction vs rule: rev_induct)
  case Nil
  then show ?case by simp
next
  case (snoc v vs)
  let ?m = "foldl tallyStep [] vs"
  let ?xs = "map the (filter truthy vs)"
  from snoc have keys: "map fst ?m = rev (remdups (rev ?xs))" .
  then have "set (map fst ?m) = set ?xs" by simp
  then have mem: "\<And>t. t \<in> fst ` set ?m \<longleftrightarrow> t \<in> set ?xs" by simp
  show ?case
  proof (cases "truthy v")
    case False
    then have "tallyStep ?m v = ?m" by (simp add: tallyStep_def)
    with False keys show ?thesis by simp
  next
    case True
    then obtain t where v: "v = Some t" and t: "t \<noteq> []"
      by (cases v) (auto simp: truthy_def)
    from v t have step: "tallyStep ?m v = tallySet ?m t (tallyGet ?m t + 1)"
      by (simp add: tallyStep_simps)
    show ?thesis
    proof (cases "t \<in> set ?xs")
      case in_xs: True
      with mem have "t \<in> fst ` set ?m" by simp
      then have "map fst (tallySet ?m t (tallyGet ?m t + 1)) = map fst ?m"
        by (simp add: keys_tallySet)
      with step keys True v in_xs show ?thesis by simp
    next
      case out: False
      with mem have "t \<notin> fst ` set ?m" by simp
      then have "map fst (tallySet ?m t (tallyGet ?m t + 1)) = map fst ?m @ [t]"
        by (simp add: keys_tallySet)
      with step keys True v out show ?thesis by simp
    qed
  qed
qed

lemma tallyVotes_keys: "map fst (tallyVotes votes) = castTargetsInOrder votes"
  by (simp add: tallyVotes_def castTargetsInOrder_def tally_keys_foldl)

lemma map_fst_filter:
  "(\<And>x. x \<in> set m \<Longrightarrow> P x \<longleftrightarrow> Q (fst x)) \<Longrightarrow> map fst (filter P m) = filter Q (map fst m)"
  by (induction m) auto

lemma leadersOf_tally_eq: "leadersOf (tallyVotes votes) = topTargets votes"
proof -
  let ?m = "tallyVotes votes"
  let ?top = "fold max (map snd ?m) 0"
  have "\<And>x. x \<in> set ?m \<Longrightarrow> (case x of (target, score) \<Rightarrow> score = ?top) \<longleftrightarrow> isTopTarget votes (fst x)"
  proof -
    fix x assume x: "x \<in> set ?m"
    obtain t c where tc: "x = (t, c)" by (cases x)
    from x tc have m: "map_of ?m t = Some c" using tallyVotes_distinct [of votes] by simp
    have "isTopTarget votes t \<longleftrightarrow> t \<in> set (leadersOf ?m)" by (simp add: leadersOf_tally_set)
    also have "\<dots> \<longleftrightarrow> (t, ?top) \<in> set ?m" by (rule leadersOf_mem)
    also have "\<dots> \<longleftrightarrow> map_of ?m t = Some ?top" using tallyVotes_distinct [of votes] by simp
    also have "\<dots> \<longleftrightarrow> c = ?top" using m by auto
    finally show "(case x of (target, score) \<Rightarrow> score = ?top) \<longleftrightarrow> isTopTarget votes (fst x)"
      using tc by simp
  qed
  then have "map fst (filter (\<lambda>(target, score). score = ?top) ?m)
               = filter (isTopTarget votes) (map fst ?m)"
    by (rule map_fst_filter)
  then show ?thesis
    by (simp add: leadersOf_def Let_def topTargets_def tallyVotes_keys)
qed

lemma topTargets_set: "t \<in> set (topTargets votes) \<longleftrightarrow> isTopTarget votes t"
  using leadersOf_tally_set [of votes] by (simp add: leadersOf_tally_eq)

lemma topTargets_distinct: "distinct (topTargets votes)"
  using leadersOf_tally_distinct [of votes] by (simp add: leadersOf_tally_eq)

lemma topTargets_nonempty: "isCastTarget votes t \<Longrightarrow> topTargets votes \<noteq> []"
  using leaders_nonempty [of votes t] by (simp add: leadersOf_tally_eq)

lemma chooseVictim_spec:
  assumes "isCastTarget votes t0"
  shows "chooseVictim (tallyVotes votes) random = Inr (specNightVictim votes random)"
  using topTargets_nonempty [OF assms]
  by (simp add: chooseVictim_def randomItem_def specNightVictim_def leadersOf_tally_eq Let_def)



lemma topTargets_unique:
  assumes "\<And>u. isTopTarget votes u \<longleftrightarrow> u = t"
  shows "topTargets votes = [t]"
proof -
  have "\<And>u. u \<in> set (topTargets votes) \<longleftrightarrow> u \<in> {t}"
    by (simp only: topTargets_set assms singleton_iff)
  then have s: "set (topTargets votes) = {t}" by (rule set_eqI)
  from topTargets_distinct s show ?thesis by (rule singleton_list)
qed


lemma specNightVictim_unique:
  assumes "topTargets votes = [t]"
  shows "specNightVictim votes random = Some t"
  using assms by (simp add: specNightVictim_def)


lemma specNightVictim_member:
  assumes s: "specNightVictim votes random = Some t"
  shows "t \<in> set (topTargets votes)"
proof (cases "length (topTargets votes) = 1")
  case True
  with s have "t = topTargets votes ! 0" by (simp add: specNightVictim_def)
  moreover from True have "topTargets votes ! 0 \<in> set (topTargets votes)" by (intro nth_mem) simp
  ultimately show ?thesis by simp
next
  case False
  let ?idx = "floorOfProduct (random 0) (length (topTargets votes))"
  show ?thesis
  proof (cases "0 \<le> ?idx \<and> ?idx < int (length (topTargets votes))")
    case in_range: True
    with s False have t: "t = topTargets votes ! nat ?idx"
      by (simp add: specNightVictim_def Let_def)
    from in_range have "nat ?idx < length (topTargets votes)" by linarith
    with t show ?thesis by simp
  next
    case out: False
    with s False show ?thesis by (simp add: specNightVictim_def Let_def)
  qed
qed


lemma specNightVictim_draw:
  assumes ne: "topTargets votes \<noteq> []"
    and r0: "0 \<le> random 0" and r1: "random 0 \<le> 1 - 1 / 2 ^ 53"
  shows "specNightVictim votes random \<noteq> None"
proof -
  from ne have pos: "0 < length (topTargets votes)" by simp
  from floorOfProduct_in_range [OF r0 r1 pos]
  show ?thesis by (simp add: specNightVictim_def Let_def)
qed

text \<open>
  C4: for every snapshot in phase NIGHT with at least one cast night vote, resolveNight
  succeeds and the target it selects is the unique target holding the maximum tally when
  one exists; when several targets tie for the maximum it is one of the tied targets, the
  one at index \<open>Math.floor(random() * k)\<close> among the \<open>k\<close> tied targets in the order
  of their first vote, so the injectable random source decides (every double in
  [0, 1) selects a target). A selected target that is seated and alive is killed: its seat is
  marked dead, every other seat is left as it was, and its id is recorded as last killed.
  If the selected target is already dead at resolution time, no player is killed and
  lastKilledId is null in the resulting snapshot, with no error raised.
\<close>

theorem resolveNight_kills_top_target:
  assumes ph: "phase g = NIGHT" and cast: "castNightVotes g \<noteq> []"
  shows "\<exists>sel g'. sel = specNightVictim (nightVotes g) random \<and>
           chooseVictim (tallyVotes (nightVotes g)) random = Inr sel \<and>
           resolveNight g now random = Inr g' \<and>
           (\<forall>t. (\<forall>u. isTopTarget (nightVotes g) u \<longleftrightarrow> u = t) \<longrightarrow> sel = Some t) \<and>
           (\<forall>t. sel = Some t \<longrightarrow> isTopTarget (nightVotes g) t) \<and>
           (0 \<le> random 0 \<and> random 0 \<le> 1 - 1 / 2 ^ 53 \<longrightarrow> sel \<noteq> None) \<and>
           (case sel of
              None \<Rightarrow> players g' = players g \<and> lastKilledId g' = None
            | Some t \<Rightarrow>
                if seatedAlive (players g) t
                then players g' = withSeatKilled (players g) t \<and>
                     \<not> seatedAlive (players g') t \<and> lastKilledId g' = Some t
                else players g' = players g \<and> lastKilledId g' = None)"
proof -
  from cast obtain t0 where t0: "isCastTarget (nightVotes g) t0"
    by (auto simp: castNightVotes_nonempty)
  let ?votes = "nightVotes g"
  let ?sel = "specNightVictim ?votes random"
  have c: "chooseVictim (tallyVotes ?votes) random = Inr ?sel"
    using t0 by (rule chooseVictim_spec)
  have u: "\<forall>t. (\<forall>u. isTopTarget ?votes u \<longleftrightarrow> u = t) \<longrightarrow> ?sel = Some t"
  proof (intro allI impI)
    fix t assume "\<forall>u. isTopTarget ?votes u \<longleftrightarrow> u = t"
    then have "\<And>u. isTopTarget ?votes u \<longleftrightarrow> u = t" by simp
    then have "topTargets ?votes = [t]" by (rule topTargets_unique)
    then show "?sel = Some t" by (rule specNightVictim_unique)
  qed
  have m: "\<forall>t. ?sel = Some t \<longrightarrow> isTopTarget ?votes t"
  proof (intro allI impI)
    fix t assume "?sel = Some t"
    then have "t \<in> set (topTargets ?votes)" by (rule specNightVictim_member)
    then show "isTopTarget ?votes t" by (simp only: topTargets_set)
  qed
  have d: "0 \<le> random 0 \<and> random 0 \<le> 1 - 1 / 2 ^ 53 \<longrightarrow> ?sel \<noteq> None"
  proof
    assume r: "0 \<le> random 0 \<and> random 0 \<le> 1 - 1 / 2 ^ 53"
    from specNightVictim_draw [OF topTargets_nonempty [OF t0], of random] r
    show "?sel \<noteq> None" by blast
  qed
  let ?out = "case ?sel of None \<Rightarrow> (players g, None)
                | Some t \<Rightarrow> if seatedAlive (players g) t
                            then (markDead t (players g), Some t) else (players g, None)"
  from nightKill_selected [OF tallyVotes_nonempty [OF t0] c, of "players g"]
  have "nightKill (players g) (tallyVotes ?votes) random = Inr (fst ?out, snd ?out)"
    by simp
  from resolveNight_result [OF ph this, of now] obtain g' where
    g': "resolveNight g now random = Inr g'" "players g' = fst ?out" "lastKilledId g' = snd ?out"
    by blast
  have k: "case ?sel of
              None \<Rightarrow> players g' = players g \<and> lastKilledId g' = None
            | Some t \<Rightarrow>
                if seatedAlive (players g) t
                then players g' = withSeatKilled (players g) t \<and>
                     \<not> seatedAlive (players g') t \<and> lastKilledId g' = Some t
                else players g' = players g \<and> lastKilledId g' = None"
  proof (cases ?sel)
    case None
    with g'(2,3) show ?thesis by simp
  next
    case (Some t)
    show ?thesis
    proof (cases "seatedAlive (players g) t")
      case True
      with Some g'(2,3) have "players g' = markDead t (players g)" "lastKilledId g' = Some t"
        by simp_all
      moreover have "\<not> seatedAlive (markDead t (players g)) t" by (rule seatedAlive_markDead)
      moreover from True have "markDead t (players g) = withSeatKilled (players g) t"
        by (rule markDead_seatedAlive)
      ultimately show ?thesis using True Some by simp
    next
      case False
      with Some g'(2,3) show ?thesis by simp
    qed
  qed
  from c g'(1) u m d k show ?thesis by (intro exI conjI) (rule refl, assumption+)
qed

text \<open>The test "breaks night vote ties using supplied RNG" (the draw 0.9 picks s2, the
  draw 0 picks s1), a three-way tie in which the draw 0.3333333333333333 picks the second
  tied target because the double product rounds up to 1, and the test "ignores votes
  that reference already-dead targets".\<close>

theorem resolveNight_kills_top_target_witness:
  "phase tieNight = NIGHT \<and> castNightVotes tieNight \<noteq> [] \<and>
   (\<exists>g'. resolveNight tieNight 500 (\<lambda>_. double_0_9) = Inr g' \<and>
         specNightVictim (nightVotes tieNight) (\<lambda>_. double_0_9) = Some ''s2'' \<and>
         map alive (players g') = [True, True, True, False] \<and> lastKilledId g' = Some ''s2'') \<and>
   (\<exists>g'. resolveNight tieNight 500 (\<lambda>_. 0) = Inr g' \<and>
         specNightVictim (nightVotes tieNight) (\<lambda>_. 0) = Some ''s1'' \<and>
         map alive (players g') = [True, True, False, True] \<and> lastKilledId g' = Some ''s1'') \<and>
   phase threeWayNight = NIGHT \<and> castNightVotes threeWayNight \<noteq> [] \<and>
   \<lfloor>double_0_3333333333333333 * 3\<rfloor> = 0 \<and>
   (\<exists>g'. resolveNight threeWayNight 500 (\<lambda>_. double_0_3333333333333333) = Inr g' \<and>
         specNightVictim (nightVotes threeWayNight) (\<lambda>_. double_0_3333333333333333) = Some ''s2'' \<and>
         map alive (players g') = [True, True, True, True, False, True, True, True, True, True] \<and>
         lastKilledId g' = Some ''s2'') \<and>
   phase deadTargetNight = NIGHT \<and> castNightVotes deadTargetNight \<noteq> [] \<and>
   (\<exists>g'. resolveNight deadTargetNight 123 (\<lambda>_. 0) = Inr g' \<and>
         specNightVictim (nightVotes deadTargetNight) (\<lambda>_. 0) = Some ''s1'' \<and>
         players g' = players deadTargetNight \<and> lastKilledId g' = None)"
proof -
  note ev = fixture_defs chooseVictim_def tallyVotes_def tallyStep_def truthy_def tallyGet_def
    leadersOf_def randomItem_def Let_def seatedAlive_def getPlayer_def
  have gen: "\<exists>g'. resolveNight g now random = Inr g' \<and>
                specNightVictim (nightVotes g) random = Some t \<and>
                (if seatedAlive (players g) t
                 then players g' = withSeatKilled (players g) t \<and> lastKilledId g' = Some t
                 else players g' = players g \<and> lastKilledId g' = None)"
    if ph: "phase g = NIGHT" and cast: "castNightVotes g \<noteq> []"
      and cv: "chooseVictim (tallyVotes (nightVotes g)) random = Inr (Some t)"
    for g now random t
  proof -
    from resolveNight_kills_top_target [OF ph cast, of random now]
    obtain sel g' where s: "sel = specNightVictim (nightVotes g) random"
      and ch: "chooseVictim (tallyVotes (nightVotes g)) random = Inr sel"
      and r: "resolveNight g now random = Inr g'"
      and k: "case sel of None \<Rightarrow> players g' = players g \<and> lastKilledId g' = None
              | Some t \<Rightarrow> if seatedAlive (players g) t
                  then players g' = withSeatKilled (players g) t \<and>
                       \<not> seatedAlive (players g') t \<and> lastKilledId g' = Some t
                  else players g' = players g \<and> lastKilledId g' = None"
      by (elim exE conjE)
    from ch cv have sel: "sel = Some t" by simp
    with k have "if seatedAlive (players g) t
                 then players g' = withSeatKilled (players g) t \<and> lastKilledId g' = Some t
                 else players g' = players g \<and> lastKilledId g' = None"
      by (simp split: if_splits)
    with r s sel show ?thesis by simp
  qed
  have f2: "floorOfProduct double_0_9 (Suc (Suc 0)) = 1"
    using floorOfProduct_0_9 by (simp add: numeral_2_eq_2)
  have z2: "floorOfProduct 0 (Suc (Suc 0)) = 0" by (simp add: floorOfProduct_zero)
  have f3: "floorOfProduct double_0_3333333333333333 (Suc (Suc (Suc 0))) = 1"
    using floorOfProduct_third by (simp add: numeral_3_eq_3)
  have a: "phase tieNight = NIGHT" "castNightVotes tieNight \<noteq> []"
    by (simp_all add: tieNight_def fixture_defs castNightVotes_def truthy_def)
  have a1: "chooseVictim (tallyVotes (nightVotes tieNight)) (\<lambda>_. double_0_9) = Inr (Some ''s2'')"
    by (simp add: f2 tieNight_def ev)
  have a2: "chooseVictim (tallyVotes (nightVotes tieNight)) (\<lambda>_. 0) = Inr (Some ''s1'')"
    by (simp add: z2 tieNight_def ev)
  have a3: "seatedAlive (players tieNight) ''s2''" "seatedAlive (players tieNight) ''s1''"
    "map alive (withSeatKilled (players tieNight) ''s2'') = [True, True, True, False]"
    "map alive (withSeatKilled (players tieNight) ''s1'') = [True, True, False, True]"
    by (simp_all add: tieNight_def ev withSeatKilled_def firstSeat_def)
  have b: "phase threeWayNight = NIGHT" "castNightVotes threeWayNight \<noteq> []"
    by (simp_all add: threeWayNight_def fixture_defs castNightVotes_def truthy_def)
  have b1: "chooseVictim (tallyVotes (nightVotes threeWayNight)) (\<lambda>_. double_0_3333333333333333)
              = Inr (Some ''s2'')"
    by (simp add: f3 threeWayNight_def ev)
  have b3: "seatedAlive (players threeWayNight) ''s2''"
    "map alive (withSeatKilled (players threeWayNight) ''s2'')
       = [True, True, True, True, False, True, True, True, True, True]"
    by (simp_all add: threeWayNight_def ev withSeatKilled_def firstSeat_def)
  have c: "phase deadTargetNight = NIGHT" "castNightVotes deadTargetNight \<noteq> []"
    by (simp_all add: deadTargetNight_def fixture_defs castNightVotes_def truthy_def)
  have c1: "chooseVictim (tallyVotes (nightVotes deadTargetNight)) (\<lambda>_. 0) = Inr (Some ''s1'')"
    "\<not> seatedAlive (players deadTargetNight) ''s1''"
    by (simp_all add: deadTargetNight_def ev)
  have x: "\<exists>g'. resolveNight tieNight 500 (\<lambda>_. double_0_9) = Inr g' \<and>
         specNightVictim (nightVotes tieNight) (\<lambda>_. double_0_9) = Some ''s2'' \<and>
         map alive (players g') = [True, True, True, False] \<and> lastKilledId g' = Some ''s2''"
  proof -
    from gen [OF a a1, of 500] a3(1) obtain g' where
      "resolveNight tieNight 500 (\<lambda>_. double_0_9) = Inr g'"
      "specNightVictim (nightVotes tieNight) (\<lambda>_. double_0_9) = Some ''s2''"
      "players g' = withSeatKilled (players tieNight) ''s2''" "lastKilledId g' = Some ''s2''"
      by auto
    with a3(3) show ?thesis by simp
  qed
  have x': "\<exists>g'. resolveNight tieNight 500 (\<lambda>_. 0) = Inr g' \<and>
         specNightVictim (nightVotes tieNight) (\<lambda>_. 0) = Some ''s1'' \<and>
         map alive (players g') = [True, True, False, True] \<and> lastKilledId g' = Some ''s1''"
  proof -
    from gen [OF a a2, of 500] a3(2) obtain g' where
      "resolveNight tieNight 500 (\<lambda>_. 0) = Inr g'"
      "specNightVictim (nightVotes tieNight) (\<lambda>_. 0) = Some ''s1''"
      "players g' = withSeatKilled (players tieNight) ''s1''" "lastKilledId g' = Some ''s1''"
      by auto
    with a3(4) show ?thesis by simp
  qed
  have y: "\<exists>g'. resolveNight threeWayNight 500 (\<lambda>_. double_0_3333333333333333) = Inr g' \<and>
         specNightVictim (nightVotes threeWayNight) (\<lambda>_. double_0_3333333333333333) = Some ''s2'' \<and>
         map alive (players g') = [True, True, True, True, False, True, True, True, True, True] \<and>
         lastKilledId g' = Some ''s2''"
  proof -
    from gen [OF b b1, of 500] b3(1) obtain g' where
      "resolveNight threeWayNight 500 (\<lambda>_. double_0_3333333333333333) = Inr g'"
      "specNightVictim (nightVotes threeWayNight) (\<lambda>_. double_0_3333333333333333) = Some ''s2''"
      "players g' = withSeatKilled (players threeWayNight) ''s2''" "lastKilledId g' = Some ''s2''"
      by auto
    with b3(2) show ?thesis by simp
  qed
  have z: "\<exists>g'. resolveNight deadTargetNight 123 (\<lambda>_. 0) = Inr g' \<and>
         specNightVictim (nightVotes deadTargetNight) (\<lambda>_. 0) = Some ''s1'' \<and>
         players g' = players deadTargetNight \<and> lastKilledId g' = None"
    using gen [OF c c1(1), of 123] c1(2) by simp
  have fl: "\<lfloor>double_0_3333333333333333 * 3\<rfloor> = 0" using floorOfProduct_third by simp
  from a b c x x' y z fl show ?thesis by (intro conjI)
qed

end
